theory Spec2Isabelle
  imports Complex_Main "HOL-Library.Word" "HOL-Library.Signed_Division"
begin

unbundle bit_operations_syntax

section \<open>JavaScript values used by the protocol code\<close>

text \<open>
  Bytes of a \<open>Uint8Array\<close> are \<open>8 word\<close>. The numbers the protocol code handles
  (sequence numbers, lengths, millisecond timestamps) are integers far below \<open>2^53\<close>,
  where double arithmetic is exact; they are modelled as \<open>int\<close>. Numbers that the code
  really uses as fractions (congestion window, round-trip times) are \<open>real\<close>.
  An exception thrown by the platform is a value \<open>Inl e\<close> of a sum type.
\<close>

type_synonym byte = "8 word"

datatype js_error = RangeError | SyntaxError

definition bindE :: "js_error + 'a \<Rightarrow> ('a \<Rightarrow> js_error + 'b) \<Rightarrow> js_error + 'b" where
  "bindE m f = (case m of Inl e \<Rightarrow> Inl e | Inr x \<Rightarrow> f x)"

text \<open>The bitwise \<open>&\<close> works on the operands converted to 32-bit integers
  (\<open>ToInt32\<close>) and gives a signed 32-bit result.\<close>

definition js_and :: "int \<Rightarrow> int \<Rightarrow> int" where
  "js_and a b = sint ((word_of_int a :: 32 word) AND (word_of_int b :: 32 word))"

text \<open>JavaScript \<open>%\<close> truncates towards zero: the sign follows the dividend.\<close>

definition js_rem :: "int \<Rightarrow> int \<Rightarrow> int" where
  "js_rem a b = a smod b"

subsection \<open>DataView over a byte array\<close>

text \<open>
  \<open>new DataView(data.buffer, data.byteOffset)\<close> is modelled as the byte list it can read.
  Every accessor throws \<open>RangeError\<close> when the access does not fit; the setters store
  the value modulo the field width (\<open>ToUint8\<close>, \<open>ToUint16\<close>, \<open>ToUint32\<close>). All
  accesses of the code are big-endian (\<open>littleEndian = false\<close>).
\<close>

definition getUint8 :: "byte list \<Rightarrow> nat \<Rightarrow> js_error + int" where
  "getUint8 view off =
     (if off + 1 \<le> length view then Inr (uint (view ! off)) else Inl RangeError)"

definition getUint16 :: "byte list \<Rightarrow> nat \<Rightarrow> js_error + int" where
  "getUint16 view off =
     (if off + 2 \<le> length view
      then Inr (uint (view ! off) * 256 + uint (view ! (off + 1)))
      else Inl RangeError)"

definition getUint32 :: "byte list \<Rightarrow> nat \<Rightarrow> js_error + int" where
  "getUint32 view off =
     (if off + 4 \<le> length view
      then Inr (uint (view ! off) * 16777216 + uint (view ! (off + 1)) * 65536
                + uint (view ! (off + 2)) * 256 + uint (view ! (off + 3)))
      else Inl RangeError)"

definition setUint8 :: "byte list \<Rightarrow> nat \<Rightarrow> int \<Rightarrow> js_error + byte list" where
  "setUint8 view off v =
     (if off + 1 \<le> length view then Inr (view[off := word_of_int (v mod 256)])
      else Inl RangeError)"

definition setUint16 :: "byte list \<Rightarrow> nat \<Rightarrow> int \<Rightarrow> js_error + byte list" where
  "setUint16 view off v =
     (if off + 2 \<le> length view
      then (let n = v mod 65536
            in Inr (view[off := word_of_int (n div 256), off + 1 := word_of_int (n mod 256)]))
      else Inl RangeError)"

definition setUint32 :: "byte list \<Rightarrow> nat \<Rightarrow> int \<Rightarrow> js_error + byte list" where
  "setUint32 view off v =
     (if off + 4 \<le> length view
      then (let n = v mod 4294967296
            in Inr (view[off := word_of_int (n div 16777216),
                         off + 1 := word_of_int (n div 65536 mod 256),
                         off + 2 := word_of_int (n div 256 mod 256),
                         off + 3 := word_of_int (n mod 256)]))
      else Inl RangeError)"

section \<open>BARQ: the framed datagram header (BarqProtocol.ts)\<close>

definition BARQ_VERSION :: int where "BARQ_VERSION = 1"
definition BARQ_HEADER_SIZE :: nat where "BARQ_HEADER_SIZE = 16"

text \<open>
  \<open>interface BarqHeader\<close>. The field \<open>type\<close> is a \<open>BarqType\<close> only for the type checker:
  \<open>decodeHeader\<close> casts whatever byte it reads, so the field is a number here. The
  fields carry the prefix \<open>h_\<close> because other records of the code have fields of the
  same names.
\<close>

record BarqHeader =
  h_version :: int
  h_type :: int
  h_sequence :: int
  h_timestamp :: int
  h_length :: int
  h_flags :: int

text \<open>\<open>enum BarqType\<close>, by its wire values.\<close>

definition BarqType_DATA :: int where "BarqType_DATA = 1"
definition BarqType_ACK :: int where "BarqType_ACK = 2"
definition BarqType_NACK :: int where "BarqType_NACK = 3"
definition BarqType_PULSE :: int where "BarqType_PULSE = 4"
definition BarqType_FLOW :: int where "BarqType_FLOW = 5"
definition BarqType_CLOSE :: int where "BarqType_CLOSE = 6"

text \<open>\<open>encodeHeader\<close>: a fresh zeroed buffer of 16 bytes, written field by field.\<close>

definition encodeHeader :: "BarqHeader \<Rightarrow> js_error + byte list" where
  "encodeHeader header =
     bindE (setUint8 (replicate BARQ_HEADER_SIZE 0) 0 0x42) (\<lambda>buf.
     bindE (setUint8 buf 1 0x51) (\<lambda>buf.
     bindE (setUint8 buf 2 (h_version header)) (\<lambda>buf.
     bindE (setUint8 buf 3 (h_type header)) (\<lambda>buf.
     bindE (setUint32 buf 4 (h_sequence header)) (\<lambda>buf.
     bindE (setUint32 buf 8 (js_and (h_timestamp header) 0xFFFFFFFF)) (\<lambda>buf.
     bindE (setUint16 buf 12 (h_length header)) (\<lambda>buf.
     bindE (setUint16 buf 14 (h_flags header)) (\<lambda>buf.
     Inr buf))))))))"

text \<open>\<open>decodeHeader\<close>: \<open>null\<close> is \<open>None\<close>; the magic test is the short-circuit \<open>||\<close>.\<close>

definition decodeHeader :: "byte list \<Rightarrow> js_error + BarqHeader option" where
  "decodeHeader data =
     (if length data < BARQ_HEADER_SIZE then Inr None
      else
        bindE (getUint8 data 0) (\<lambda>m0.
        if m0 \<noteq> 0x42 then Inr None
        else
          bindE (getUint8 data 1) (\<lambda>m1.
          if m1 \<noteq> 0x51 then Inr None
          else
            bindE (getUint8 data 2) (\<lambda>v.
            bindE (getUint8 data 3) (\<lambda>t.
            bindE (getUint32 data 4) (\<lambda>s.
            bindE (getUint32 data 8) (\<lambda>ts.
            bindE (getUint16 data 12) (\<lambda>l.
            bindE (getUint16 data 14) (\<lambda>f.
            Inr (Some \<lparr>h_version = v, h_type = t, h_sequence = s, h_timestamp = ts,
                        h_length = l, h_flags = f\<rparr>))))))))))"

section \<open>JavaScript \<open>Set\<close> and \<open>Map\<close>\<close>

text \<open>
  A \<open>Set<number>\<close> keeps its elements in insertion order (\<open>Array.from\<close> reads them in
  that order): it is a list, \<open>add\<close> appends an element that is not there yet and
  \<open>delete\<close> removes it. A module-level \<open>Map<string, T>\<close> that the code only looks up
  by key is a map \<open>string \<rightharpoonup> T\<close>; every function takes the map and returns the new one.
  \<open>Date.now()\<close> is an argument \<open>now\<close>.
\<close>

type_synonym 'a js_set = "'a list"

definition Set_has :: "'a js_set \<Rightarrow> 'a \<Rightarrow> bool" where
  "Set_has s x = (x \<in> set s)"

definition Set_add :: "'a js_set \<Rightarrow> 'a \<Rightarrow> 'a js_set" where
  "Set_add s x = (if x \<in> set s then s else s @ [x])"

definition Set_delete :: "'a js_set \<Rightarrow> 'a \<Rightarrow> 'a js_set" where
  "Set_delete s x = removeAll x s"

definition Set_size :: "'a js_set \<Rightarrow> nat" where
  "Set_size s = length (remdups s)"

section \<open>NABD: the pulse and gap tracker (NabdTiming.ts)\<close>

definition NABD_PULSE_INTERVAL :: int where "NABD_PULSE_INTERVAL = 100"
definition NABD_LOSS_THRESHOLD :: int where "NABD_LOSS_THRESHOLD = 3"
definition NABD_RECOVERY_WINDOW :: int where "NABD_RECOVERY_WINDOW = 500"

record NabdState =
  n_peerId :: string
  expectedSequence :: int
  lastPulse :: int
  missedPulses :: int
  gaps :: "int js_set"
  lastReceived :: int

definition initTiming :: "(string \<rightharpoonup> NabdState) \<Rightarrow> int \<Rightarrow> string \<Rightarrow> (string \<rightharpoonup> NabdState)" where
  "initTiming states now peerId =
     states(peerId \<mapsto> \<lparr>n_peerId = peerId, expectedSequence = 0, lastPulse = now,
                          missedPulses = 0, gaps = [], lastReceived = now\<rparr>)"

text \<open>The loop \<open>for (let i = state.expectedSequence; i < sequence; i++)\<close> of \<open>onReceive\<close>,
  carrying the gap set and the list \<open>nacks\<close>.\<close>

function onReceive_loop :: "int \<Rightarrow> int \<Rightarrow> int js_set \<Rightarrow> int list \<Rightarrow> int js_set \<times> int list" where
  "onReceive_loop i sequence gs nacks =
     (if i < sequence then onReceive_loop (i + 1) sequence (Set_add gs i) (nacks @ [i])
      else (gs, nacks))"
  by pat_completeness auto
termination
  by (relation "measure (\<lambda>(i, sequence, gs, nacks). nat (sequence - i))") auto

declare onReceive_loop.simps [simp del]

definition onReceive ::
  "(string \<rightharpoonup> NabdState) \<Rightarrow> int \<Rightarrow> string \<Rightarrow> int \<Rightarrow> int list \<times> (string \<rightharpoonup> NabdState)" where
  "onReceive states now peerId sequence =
     (case states peerId of
        None \<Rightarrow> ([], states)
      | Some state \<Rightarrow>
          (let state1 = state\<lparr>lastReceived := now, missedPulses := 0\<rparr>;
               (gs, nacks) =
                 (if sequence > expectedSequence state1
                  then onReceive_loop (expectedSequence state1) sequence (gaps state1) []
                  else (gaps state1, []));
               state2 = state1\<lparr>gaps := Set_delete gs sequence\<rparr>;
               state3 = state2\<lparr>expectedSequence := max (expectedSequence state2) (sequence + 1)\<rparr>
           in (nacks, states(peerId \<mapsto> state3))))"

definition shouldPulse ::
  "(string \<rightharpoonup> NabdState) \<Rightarrow> int \<Rightarrow> string \<Rightarrow> bool \<times> (string \<rightharpoonup> NabdState)" where
  "shouldPulse states now peerId =
     (case states peerId of
        None \<Rightarrow> (False, states)
      | Some state \<Rightarrow>
          (let elapsed = now - lastPulse state
           in if elapsed \<ge> NABD_PULSE_INTERVAL
              then (True, states(peerId \<mapsto> state\<lparr>lastPulse := now\<rparr>))
              else (False, states)))"

definition isHealthy :: "(string \<rightharpoonup> NabdState) \<Rightarrow> int \<Rightarrow> string \<Rightarrow> bool" where
  "isHealthy states now peerId =
     (case states peerId of
        None \<Rightarrow> False
      | Some state \<Rightarrow> now - lastReceived state < NABD_PULSE_INTERVAL * NABD_LOSS_THRESHOLD)"

definition getGaps :: "(string \<rightharpoonup> NabdState) \<Rightarrow> string \<Rightarrow> int list" where
  "getGaps states peerId = (case states peerId of None \<Rightarrow> [] | Some state \<Rightarrow> gaps state)"

definition nabd_cleanup :: "(string \<rightharpoonup> NabdState) \<Rightarrow> string \<Rightarrow> (string \<rightharpoonup> NabdState)" where
  "nabd_cleanup states peerId = states(peerId := None)"

section \<open>SAYL: the flow controller (SaylFlow.ts)\<close>

text \<open>
  The congestion window, the round-trip times and the bandwidth are fractions: they are
  \<open>real\<close> here, so the rounding of double arithmetic in \<open>onAck\<close> is idealised
  (\<open>onLoss\<close> only halves, floors and compares, which doubles do exactly).
  \<open>rttMin\<close> starts as \<open>Infinity\<close>, which is \<open>None\<close>. Division by zero is \<open>Infinity\<close> in
  JavaScript and is written out where the code can meet it.
\<close>

record SaylState =
  s_peerId :: string
  congestionWindow :: real
  bytesInFlight :: real
  packetsInFlight :: real
  bandwidth :: real
  rttMin :: "real option"
  rttSmoothed :: real
  throttled :: bool

definition INITIAL_CWND :: real where "INITIAL_CWND = 10"
definition MIN_CWND :: real where "MIN_CWND = 2"
definition MAX_CWND :: real where "MAX_CWND = 100"

definition initFlow :: "(string \<rightharpoonup> SaylState) \<Rightarrow> string \<Rightarrow> (string \<rightharpoonup> SaylState)" where
  "initFlow flows peerId =
     flows(peerId \<mapsto> \<lparr>s_peerId = peerId, congestionWindow = INITIAL_CWND, bytesInFlight = 0,
                         packetsInFlight = 0, bandwidth = 0, rttMin = None, rttSmoothed = 100,
                         throttled = False\<rparr>)"

definition canSend :: "(string \<rightharpoonup> SaylState) \<Rightarrow> string \<Rightarrow> bool" where
  "canSend flows peerId =
     (case flows peerId of
        None \<Rightarrow> True
      | Some flow \<Rightarrow> packetsInFlight flow < congestionWindow flow)"

definition onSend :: "(string \<rightharpoonup> SaylState) \<Rightarrow> string \<Rightarrow> real \<Rightarrow> (string \<rightharpoonup> SaylState)" where
  "onSend flows peerId bytes =
     (case flows peerId of
        None \<Rightarrow> flows
      | Some flow \<Rightarrow>
          flows(peerId \<mapsto> flow\<lparr>bytesInFlight := bytesInFlight flow + bytes,
                                  packetsInFlight := packetsInFlight flow + 1\<rparr>))"

definition onAck ::
  "(string \<rightharpoonup> SaylState) \<Rightarrow> string \<Rightarrow> real \<Rightarrow> real \<Rightarrow> (string \<rightharpoonup> SaylState)" where
  "onAck flows peerId bytes rtt =
     (case flows peerId of
        None \<Rightarrow> flows
      | Some flow \<Rightarrow>
          (let flow1 = flow\<lparr>bytesInFlight := max 0 (bytesInFlight flow - bytes),
                             packetsInFlight := max 0 (packetsInFlight flow - 1)\<rparr>;
               flow2 = flow1\<lparr>rttMin := (case rttMin flow1 of None \<Rightarrow> Some rtt
                                           | Some m \<Rightarrow> Some (min m rtt)),
                              rttSmoothed := rttSmoothed flow1 * 0.875 + rtt * 0.125\<rparr>;
               flow3 = (if rtt > 0
                        then flow2\<lparr>bandwidth := bandwidth flow2 * 0.9
                                                   + (bytes / (rtt / 1000)) * 0.1\<rparr>
                        else flow2);
               flow4 = (if \<not> throttled flow3
                        then flow3\<lparr>congestionWindow :=
                               (if congestionWindow flow3 = 0 then MAX_CWND
                                else min MAX_CWND
                                       (congestionWindow flow3 + 1 / congestionWindow flow3))\<rparr>
                        else flow3)
           in flows(peerId \<mapsto> flow4)))"

text \<open>
  \<open>onLoss\<close> also registers a timer that clears \<open>throttled\<close> after \<open>2 * rttSmoothed\<close>
  milliseconds. The model returns the delay of the timer it registers (\<open>None\<close>: no timer);
  the firing of the timer, which happens in real time, is the separate step \<open>recover\<close>.
  The timer of the code holds the flow object itself: when the peer was cleaned up and
  initialised again before the timer fires, the timer changes the old object only, which
  is no step of the table.
\<close>

definition onLoss :: "(string \<rightharpoonup> SaylState) \<Rightarrow> string \<Rightarrow> (string \<rightharpoonup> SaylState) \<times> real option" where
  "onLoss flows peerId =
     (case flows peerId of
        None \<Rightarrow> (flows, None)
      | Some flow \<Rightarrow>
          (let flow1 = flow\<lparr>congestionWindow :=
                         max MIN_CWND (of_int \<lfloor>congestionWindow flow / 2\<rfloor>)\<rparr>;
               flow2 = flow1\<lparr>throttled := True\<rparr>
           in (flows(peerId \<mapsto> flow2), Some (rttSmoothed flow2 * 2))))"

definition recover :: "(string \<rightharpoonup> SaylState) \<Rightarrow> string \<Rightarrow> (string \<rightharpoonup> SaylState)" where
  "recover flows peerId =
     (case flows peerId of
        None \<Rightarrow> flows
      | Some flow \<Rightarrow> flows(peerId \<mapsto> flow\<lparr>throttled := False\<rparr>))"

definition getThroughput :: "(string \<rightharpoonup> SaylState) \<Rightarrow> string \<Rightarrow> real" where
  "getThroughput flows peerId =
     (case flows peerId of
        None \<Rightarrow> 0
      | Some flow \<Rightarrow>
          (if rttSmoothed flow = 0 then 0
           else (congestionWindow flow * 1200) / (rttSmoothed flow / 1000)))"

definition getPacingDelay :: "(string \<rightharpoonup> SaylState) \<Rightarrow> string \<Rightarrow> real" where
  "getPacingDelay flows peerId =
     (case flows peerId of
        None \<Rightarrow> 0
      | Some flow \<Rightarrow> (if bandwidth flow = 0 then 0 else (1200 * 1000) / bandwidth flow))"

definition sayl_getStats :: "(string \<rightharpoonup> SaylState) \<Rightarrow> string \<Rightarrow> SaylState option" where
  "sayl_getStats flows peerId = flows peerId"

definition sayl_cleanup :: "(string \<rightharpoonup> SaylState) \<Rightarrow> string \<Rightarrow> (string \<rightharpoonup> SaylState)" where
  "sayl_cleanup flows peerId = flows(peerId := None)"

text \<open>
  The flow tables a program can reach: it starts with no flow and calls the exported
  functions; a recovery timer may fire between two calls.
\<close>

inductive initialized :: "(string \<rightharpoonup> SaylState) \<Rightarrow> bool" where
  start: "initialized Map.empty"
| init: "initialized flows \<Longrightarrow> initialized (initFlow flows peerId)"
| send: "initialized flows \<Longrightarrow> initialized (onSend flows peerId bytes)"
| ack: "initialized flows \<Longrightarrow> initialized (onAck flows peerId bytes rtt)"
| loss: "initialized flows \<Longrightarrow> initialized (fst (onLoss flows peerId))"
| timer: "initialized flows \<Longrightarrow> initialized (recover flows peerId)"
| clean: "initialized flows \<Longrightarrow> initialized (sayl_cleanup flows peerId)"

section \<open>The platform\<close>

text \<open>
  The code calls functions that are not part of the repository: the hash functions of
  \<open>js-sha256\<close> and \<open>js-sha512\<close>, \<open>TextEncoder\<close> and \<open>TextDecoder\<close>, the base64 codec
  of \<open>Buffer\<close>, and \<open>JSON.stringify\<close> and \<open>JSON.parse\<close>. They are the fields of a record
  that every function of the model takes as its first argument; a theorem says which
  property of the platform it needs, if any. None of them throws, except \<open>JSON.parse\<close>
  (\<open>SyntaxError\<close>); \<open>TextDecoder\<close> is used in its default, non-fatal mode.
\<close>

datatype json =
  JNull
  | JBool bool
  | JNumber int
  | JString string
  | JArray "json list"
  | JObject "(string \<times> json) list"

record platform =
  sha256 :: "byte list \<Rightarrow> byte list"
  sha512 :: "byte list \<Rightarrow> byte list"
  textEncode :: "string \<Rightarrow> byte list"
  textDecode :: "byte list \<Rightarrow> string"
  toBase64 :: "byte list \<Rightarrow> string"
  fromBase64 :: "string \<Rightarrow> byte list"
  jsonStringify :: "json \<Rightarrow> string"
  jsonParse :: "string \<Rightarrow> js_error + json"

section \<open>MIFTAH: the puncturable key store (MiftahEncryption.ts)\<close>

definition MAX_PUNCTURES :: nat where "MAX_PUNCTURES = 1000"

record Miftah =
  m_peerId :: string
  masterSecret :: "byte list"
  puncturedSequences :: "int js_set"
  currentSequence :: int
  created :: int
  lastPunctured :: int

definition fataha ::
  "platform \<Rightarrow> (string \<rightharpoonup> Miftah) \<Rightarrow> int \<Rightarrow> string \<Rightarrow> byte list \<Rightarrow> byte list
     \<Rightarrow> Miftah \<times> (string \<rightharpoonup> Miftah)" where
  "fataha P keys now peerId myPrivateKey peerPublicKey =
     (let combined = myPrivateKey @ peerPublicKey;
          miftah = \<lparr>m_peerId = peerId, masterSecret = sha512 P combined,
                    puncturedSequences = [], currentSequence = 0,
                    created = now, lastPunctured = now\<rparr>
      in (miftah, keys(peerId \<mapsto> miftah)))"

text \<open>\<open>setBigUint64(0, BigInt(sequence), false)\<close> on a fresh array of 8 bytes.\<close>

definition seqBytes64 :: "int \<Rightarrow> byte list" where
  "seqBytes64 sequence =
     (let n = sequence mod 18446744073709551616
      in [word_of_int (n div 72057594037927936), word_of_int (n div 281474976710656 mod 256),
          word_of_int (n div 1099511627776 mod 256), word_of_int (n div 4294967296 mod 256),
          word_of_int (n div 16777216 mod 256), word_of_int (n div 65536 mod 256),
          word_of_int (n div 256 mod 256), word_of_int (n mod 256)])"

definition deriveSequenceKey :: "platform \<Rightarrow> byte list \<Rightarrow> int \<Rightarrow> byte list" where
  "deriveSequenceKey P secret sequence = sha256 P (secret @ seqBytes64 sequence)"

text \<open>
  The loop \<open>out[i] = bytes[i] ^ seqKey[i % seqKey.length]\<close> for \<open>i\<close> from 0 to the length of
  \<open>bytes\<close>. With an empty key the index is \<open>NaN\<close>, the element \<open>undefined\<close> and the
  exclusive-or leaves the byte as it is.
\<close>

definition xorWithKey :: "byte list \<Rightarrow> byte list \<Rightarrow> byte list" where
  "xorWithKey seqKey bytes =
     map (\<lambda>i. bytes ! i XOR (if seqKey = [] then 0 else seqKey ! (i mod length seqKey)))
       [0..<length bytes]"

text \<open>
  \<open>tashfir\<close> returns \<open>null\<close> (here \<open>None\<close>) without a key, and otherwise the base64 text
  of the 4-byte big-endian sequence followed by the ciphertext, with the sequence it used.
  The outcome is paired with the key table after the call.
\<close>

definition tashfir ::
  "platform \<Rightarrow> (string \<rightharpoonup> Miftah) \<Rightarrow> string \<Rightarrow> string
     \<Rightarrow> (js_error + (string \<times> int) option) \<times> (string \<rightharpoonup> Miftah)" where
  "tashfir P keys peerId plaintext =
     (case keys peerId of
        None \<Rightarrow> (Inr None, keys)
      | Some miftah \<Rightarrow>
          (let sequence = currentSequence miftah;
               miftah1 = miftah\<lparr>currentSequence := currentSequence miftah + 1\<rparr>;
               keys1 = keys(peerId \<mapsto> miftah1);
               seqKey = deriveSequenceKey P (masterSecret miftah1) sequence;
               plaintextBytes = textEncode P plaintext;
               encrypted = xorWithKey seqKey plaintextBytes
           in (case setUint32 (replicate (4 + length encrypted) 0) 0 sequence of
                 Inl e \<Rightarrow> (Inl e, keys1)
               | Inr buf \<Rightarrow>
                   (let result = take 4 buf @ encrypted
                    in (Inr (Some (toBase64 P result, sequence)), keys1)))))"

definition thaqb :: "Miftah \<Rightarrow> int \<Rightarrow> int \<Rightarrow> Miftah" where
  "thaqb miftah now sequence =
     miftah\<lparr>puncturedSequences := Set_add (puncturedSequences miftah) sequence,
            lastPunctured := now\<rparr>"

text \<open>
  What a call of \<open>fakk\<close> does, told apart by the line it logs; \<open>fakk_value\<close> is the value
  the caller gets (\<open>null\<close> is \<open>None\<close>). \<open>DecryptionFailed\<close> is the \<open>catch\<close> branch.
\<close>

datatype fakk_outcome = NoKey | ReplayDetected | DecryptionFailed | Plaintext string

fun fakk_value :: "fakk_outcome \<Rightarrow> string option" where
  "fakk_value NoKey = None"
| "fakk_value ReplayDetected = None"
| "fakk_value DecryptionFailed = None"
| "fakk_value (Plaintext s) = Some s"

text \<open>
  The body of the \<open>try\<close> block of \<open>fakk\<close>: the exclusive-or, the puncture, and the decoded
  text. No statement of it can throw, so it always is \<open>Inr\<close>.
\<close>

definition fakk_try ::
  "platform \<Rightarrow> Miftah \<Rightarrow> int \<Rightarrow> int \<Rightarrow> byte list \<Rightarrow> byte list \<Rightarrow> js_error + (string \<times> Miftah)" where
  "fakk_try P miftah now sequence seqKey ciphertext =
     (let plaintext = xorWithKey seqKey ciphertext;
          miftah1 = thaqb miftah now sequence
      in Inr (textDecode P plaintext, miftah1))"

text \<open>
  \<open>fakk\<close>. The \<open>DataView\<close> is taken to end where the decoded data ends (a buffer that
  owns its memory); the read of the sequence then throws \<open>RangeError\<close> on fewer than
  4 bytes, outside the \<open>try\<close> block. (On a pooled Node \<open>Buffer\<close> the read would return
  bytes of the pool instead; inputs of at least 4 bytes behave the same in both.)
\<close>

definition fakk ::
  "platform \<Rightarrow> (string \<rightharpoonup> Miftah) \<Rightarrow> int \<Rightarrow> string \<Rightarrow> string
     \<Rightarrow> (js_error + fakk_outcome) \<times> (string \<rightharpoonup> Miftah)" where
  "fakk P keys now peerId encryptedBase64 =
     (case keys peerId of
        None \<Rightarrow> (Inr NoKey, keys)
      | Some miftah \<Rightarrow>
          (let data = fromBase64 P encryptedBase64
           in (case getUint32 data 0 of
                 Inl e \<Rightarrow> (Inl e, keys)
               | Inr sequence \<Rightarrow>
                   (let ciphertext = drop 4 data
                    in if Set_has (puncturedSequences miftah) sequence
                       then (Inr ReplayDetected, keys)
                       else
                         (let seqKey = deriveSequenceKey P (masterSecret miftah) sequence
                          in (case fakk_try P miftah now sequence seqKey ciphertext of
                                Inl e \<Rightarrow> (Inr DecryptionFailed, keys)
                              | Inr (text, miftah1) \<Rightarrow>
                                  (Inr (Plaintext text), keys(peerId \<mapsto> miftah1))))))))"

definition needsRotation :: "(string \<rightharpoonup> Miftah) \<Rightarrow> string \<Rightarrow> bool" where
  "needsRotation keys peerId =
     (case keys peerId of
        None \<Rightarrow> True
      | Some miftah \<Rightarrow> Set_size (puncturedSequences miftah) \<ge> MAX_PUNCTURES)"

definition aghlaqa :: "(string \<rightharpoonup> Miftah) \<Rightarrow> string \<Rightarrow> (string \<rightharpoonup> Miftah)" where
  "aghlaqa keys peerId =
     (case keys peerId of None \<Rightarrow> keys | Some miftah \<Rightarrow> keys(peerId := None))"

text \<open>
  The calls a program makes on the key store between two calls that a claim looks at.
  \<open>Fataha\<close> and \<open>Aghlaqa\<close> on a peer end the life of that peer's record: the first puts a
  new record in its place, the second removes it.
\<close>

datatype miftah_call =
  Fataha int string "byte list" "byte list"
  | Tashfir string string
  | Fakk int string string
  | Aghlaqa string

fun run_call :: "platform \<Rightarrow> (string \<rightharpoonup> Miftah) \<Rightarrow> miftah_call \<Rightarrow> (string \<rightharpoonup> Miftah)" where
  "run_call P keys (Fataha now peerId priv pub) = snd (fataha P keys now peerId priv pub)"
| "run_call P keys (Tashfir peerId plaintext) = snd (tashfir P keys peerId plaintext)"
| "run_call P keys (Fakk now peerId encryptedBase64) = snd (fakk P keys now peerId encryptedBase64)"
| "run_call P keys (Aghlaqa peerId) = aghlaqa keys peerId"

fun run_calls :: "platform \<Rightarrow> (string \<rightharpoonup> Miftah) \<Rightarrow> miftah_call list \<Rightarrow> (string \<rightharpoonup> Miftah)" where
  "run_calls P keys [] = keys"
| "run_calls P keys (c # cs) = run_calls P (run_call P keys c) cs"

fun destroys :: "string \<Rightarrow> miftah_call \<Rightarrow> bool" where
  "destroys peerId (Fataha now p priv pub) = (p = peerId)"
| "destroys peerId (Aghlaqa p) = (p = peerId)"
| "destroys peerId (Tashfir p plaintext) = False"
| "destroys peerId (Fakk now p encryptedBase64) = False"

text \<open>The puncture invariant: the peer has a record and the sequence is in its punctured set.\<close>

definition punctured_in :: "(string \<rightharpoonup> Miftah) \<Rightarrow> string \<Rightarrow> int \<Rightarrow> bool" where
  "punctured_in keys peerId S =
     (case keys peerId of None \<Rightarrow> False | Some m \<Rightarrow> S \<in> set (puncturedSequences m))"

section \<open>ZBAT: the manifest and hidden envelope (ZBATProtocol.ts)\<close>

definition ZBAT_VERSION :: int where "ZBAT_VERSION = 1"

datatype DarajaPriority = ISTI_JAL | ADIY | TAKHIR | KHALFIYA

fun daraja_code :: "DarajaPriority \<Rightarrow> int" where
  "daraja_code ISTI_JAL = 1"
| "daraja_code ADIY = 2"
| "daraja_code TAKHIR = 3"
| "daraja_code KHALFIYA = 4"

record WyreSUpIdentity =
  prefix :: string
  privateKey :: "byte list"
  publicKey :: "byte list"
  hash :: string
  fullId :: string

record Zahir =
  z_version :: int
  senderId :: string
  recipientId :: string
  daraja :: DarajaPriority
  z_timestamp :: int
  ghilafSize :: int

record Ghilaf =
  miftahSequence :: int
  nonce :: "byte list"
  batin :: "byte list"
  mac :: "byte list"

record Batin =
  b_type :: int
  content :: "byte list"
  metadata :: json

record Tabaq =
  zahir :: Zahir
  ghilaf :: Ghilaf

text \<open>The objects as \<open>JSON.stringify\<close> sees them: the properties in the order in which the
  object literals of the code list them.\<close>

definition zahir_json :: "Zahir \<Rightarrow> json" where
  "zahir_json z =
     JObject [(''version'', JNumber (z_version z)), (''senderId'', JString (senderId z)),
              (''recipientId'', JString (recipientId z)),
              (''daraja'', JNumber (daraja_code (daraja z))),
              (''timestamp'', JNumber (z_timestamp z)), (''ghilafSize'', JNumber (ghilafSize z))]"

definition batin_json :: "platform \<Rightarrow> Batin \<Rightarrow> json" where
  "batin_json P b =
     JObject [(''type'', JNumber (b_type b)), (''content'', JString (toBase64 P (content b))),
              (''metadata'', metadata b)]"

definition ghilaf_json :: "platform \<Rightarrow> Ghilaf \<Rightarrow> json" where
  "ghilaf_json P g =
     JObject [(''miftahSequence'', JNumber (miftahSequence g)),
              (''nonce'', JString (toBase64 P (nonce g))),
              (''batin'', JString (toBase64 P (batin g))),
              (''mac'', JString (toBase64 P (mac g)))]"

text \<open>\<open>satr\<close>; the priority is an argument here (the code defaults it to \<open>ADIY\<close>).\<close>

definition satr ::
  "platform \<Rightarrow> (string \<rightharpoonup> Miftah) \<Rightarrow> int \<Rightarrow> WyreSUpIdentity \<Rightarrow> string \<Rightarrow> Batin \<Rightarrow> DarajaPriority
     \<Rightarrow> (js_error + Tabaq option) \<times> (string \<rightharpoonup> Miftah)" where
  "satr P keys now identity recipient b priority =
     (let batinJson = jsonStringify P (batin_json P b)
      in (case tashfir P keys recipient batinJson of
            (Inl e, keys1) \<Rightarrow> (Inl e, keys1)
          | (Inr None, keys1) \<Rightarrow> (Inr None, keys1)
          | (Inr (Some (encrypted, sequence)), keys1) \<Rightarrow>
              (let encryptedBytes = textEncode P encrypted;
                   g = \<lparr>miftahSequence = sequence, nonce = replicate 12 0,
                        batin = encryptedBytes, mac = replicate 16 0\<rparr>;
                   z = \<lparr>z_version = ZBAT_VERSION, senderId = fullId identity,
                        recipientId = recipient, daraja = priority, z_timestamp = now,
                        ghilafSize = int (length encryptedBytes)\<rparr>
               in (Inr (Some \<lparr>zahir = z, ghilaf = g\<rparr>), keys1))))"

text \<open>\<open>serializeTabaq\<close>: the length of the manifest in 4 bytes, the manifest, the envelope.\<close>

definition serializeTabaq :: "platform \<Rightarrow> Tabaq \<Rightarrow> js_error + byte list" where
  "serializeTabaq P tabaq =
     (let zahirBytes = textEncode P (jsonStringify P (zahir_json (zahir tabaq)));
          ghilafBytes = textEncode P (jsonStringify P (ghilaf_json P (ghilaf tabaq)))
      in bindE (setUint32 (replicate (4 + length zahirBytes + length ghilafBytes) 0) 0
                  (int (length zahirBytes)))
           (\<lambda>buf. Inr (take 4 buf @ zahirBytes @ ghilafBytes)))"

text \<open>\<open>data.slice(start, end)\<close> for indices that are not negative.\<close>

definition slice :: "byte list \<Rightarrow> nat \<Rightarrow> nat \<Rightarrow> byte list" where
  "slice data start end = take (end - start) (drop start data)"

text \<open>
  \<open>extractZahir\<close>: everything is inside the \<open>try\<close> block, so a \<open>RangeError\<close> of the read
  and a \<open>SyntaxError\<close> of \<open>JSON.parse\<close> both give \<open>null\<close>. The parsed value is returned
  as it is (the cast to \<open>Zahir\<close> checks nothing); the JSON value \<open>null\<close> is \<open>null\<close> too.
\<close>

definition extractZahir :: "platform \<Rightarrow> byte list \<Rightarrow> json option" where
  "extractZahir P data =
     (case getUint32 data 0 of
        Inl e \<Rightarrow> None
      | Inr zahirLen \<Rightarrow>
          (let zahirJson = textDecode P (slice data 4 (4 + nat zahirLen))
           in (case jsonParse P zahirJson of
                 Inl e \<Rightarrow> None
               | Inr v \<Rightarrow> (if v = JNull then None else Some v))))"

text \<open>Reading a property of a parsed value, as a caller's \<open>zahir.senderId\<close> does;
  \<open>undefined\<close> is \<open>None\<close>.\<close>

definition json_get :: "json \<Rightarrow> string \<Rightarrow> json option" where
  "json_get v name = (case v of JObject ms \<Rightarrow> map_of ms name | _ \<Rightarrow> None)"

section \<open>BARQ: connections and packets (BarqProtocol.ts)\<close>

text \<open>
  \<open>processPacket\<close> iterates over the module's \<open>Map\<close> of connections, so the map is an
  association list in insertion order: \<open>set\<close> replaces the value of a key that is there
  and appends a new key.
\<close>

text \<open>\<open>interface BarqConnection\<close>; the prefix \<open>c_\<close> keeps its fields apart from names used
  elsewhere in the code.\<close>

record BarqConnection =
  c_peerId :: string
  peerPublicKey :: "byte list"
  sharedSecret :: "byte list"
  sendSequence :: int
  recvSequence :: int
  c_rtt :: real
  lastSeen :: int
  pendingAcks :: "int js_set"
  c_created :: int

fun Map_set :: "(string \<times> 'v) list \<Rightarrow> string \<Rightarrow> 'v \<Rightarrow> (string \<times> 'v) list" where
  "Map_set [] k v = [(k, v)]"
| "Map_set ((k', v') # rest) k v =
     (if k' = k then (k, v) # rest else (k', v') # Map_set rest k v)"

definition deriveSecret :: "platform \<Rightarrow> byte list \<Rightarrow> byte list \<Rightarrow> byte list" where
  "deriveSecret P senderPrivateKey recipientPublicKey =
     sha256 P (senderPrivateKey @ recipientPublicKey)"

text \<open>The bodies of \<open>encryptPayload\<close> and of the \<open>try\<close> block of \<open>decryptPayload\<close> are the
  same; \<open>decryptPayload\<close> turns an exception into \<open>null\<close>.\<close>

definition encryptPayload :: "platform \<Rightarrow> byte list \<Rightarrow> int \<Rightarrow> byte list \<Rightarrow> js_error + byte list" where
  "encryptPayload P secret sequence plaintext =
     bindE (setUint32 (replicate 4 0) 0 sequence) (\<lambda>seqBytes.
     Inr (xorWithKey (sha256 P (secret @ seqBytes)) plaintext))"

definition decryptPayload :: "platform \<Rightarrow> byte list \<Rightarrow> int \<Rightarrow> byte list \<Rightarrow> byte list option" where
  "decryptPayload P secret sequence ciphertext =
     (case bindE (setUint32 (replicate 4 0) 0 sequence) (\<lambda>seqBytes.
             Inr (xorWithKey (sha256 P (secret @ seqBytes)) ciphertext)) of
        Inl e \<Rightarrow> None
      | Inr plaintext \<Rightarrow> Some plaintext)"

definition createConnection ::
  "platform \<Rightarrow> (string \<times> BarqConnection) list \<Rightarrow> int \<Rightarrow> byte list \<Rightarrow> string \<Rightarrow> byte list
     \<Rightarrow> BarqConnection \<times> (string \<times> BarqConnection) list" where
  "createConnection P connections now myPrivateKey peerId peerKey =
     (let conn = \<lparr>c_peerId = peerId, peerPublicKey = peerKey,
                  sharedSecret = deriveSecret P myPrivateKey peerKey,
                  sendSequence = 0, recvSequence = 0, c_rtt = 100, lastSeen = now,
                  pendingAcks = [], c_created = now\<rparr>
      in (conn, Map_set connections peerId conn))"

text \<open>
  The loop of \<open>processPacket\<close> over the connections, with the header already decoded.
  It returns at the first connection whose \<open>decryptPayload\<close> result is not \<open>null\<close>
  (a \<open>Uint8Array\<close>, even an empty one, is truthy). \<open>nowRtt\<close> and \<open>nowSeen\<close> are the two
  readings of \<open>Date.now()\<close>.
\<close>

fun processPacket_loop ::
  "platform \<Rightarrow> int \<Rightarrow> int \<Rightarrow> BarqHeader \<Rightarrow> byte list \<Rightarrow> (string \<times> BarqConnection) list
     \<Rightarrow> (string \<times> string) option \<times> (string \<times> BarqConnection) list" where
  "processPacket_loop P nowRtt nowSeen header data [] = (None, [])"
| "processPacket_loop P nowRtt nowSeen header data ((peerId, conn) # rest) =
     (let payload = drop BARQ_HEADER_SIZE data
      in (case decryptPayload P (sharedSecret conn) (h_sequence header) payload of
            Some decrypted \<Rightarrow>
              (let conn1 =
                     (if h_type header = BarqType_ACK
                      then (let now = js_and nowRtt 0xFFFFFFFF;
                                r = js_rem (now - h_timestamp header + 0x100000000) 0x100000000
                            in conn\<lparr>pendingAcks := Set_delete (pendingAcks conn) (h_sequence header),
                                    c_rtt := c_rtt conn * 0.8 + of_int r * 0.2\<rparr>)
                      else conn);
                   conn2 = conn1\<lparr>lastSeen := nowSeen,
                                  recvSequence := max (recvSequence conn1) (h_sequence header + 1)\<rparr>
               in (Some (peerId, textDecode P decrypted), (peerId, conn2) # rest))
          | None \<Rightarrow>
              (case processPacket_loop P nowRtt nowSeen header data rest of
                 (r, rest') \<Rightarrow> (r, (peerId, conn) # rest'))))"

definition processPacket ::
  "platform \<Rightarrow> (string \<times> BarqConnection) list \<Rightarrow> int \<Rightarrow> int \<Rightarrow> byte list
     \<Rightarrow> (js_error + (string \<times> string) option) \<times> (string \<times> BarqConnection) list" where
  "processPacket P connections nowRtt nowSeen data =
     (case decodeHeader data of
        Inl e \<Rightarrow> (Inl e, connections)
      | Inr None \<Rightarrow> (Inr None, connections)
      | Inr (Some header) \<Rightarrow>
          (case processPacket_loop P nowRtt nowSeen header data connections of
             (r, connections') \<Rightarrow> (Inr r, connections')))"

section \<open>A reference platform\<close>

text \<open>
  The theorems below hold for every platform. To run the model on concrete inputs, this
  section gives one platform: base64 after RFC 4648 (a decoder that skips characters
  outside the alphabet and stops at the padding), text of one byte per character (which
  is UTF-8 for ASCII text), JSON text without white space for the values of type
  \<open>json\<close>, and, in place of the SHA-2 functions, a digest of the right length that adds
  up its input. No theorem depends on what the digest computes.
\<close>

definition b64_alphabet :: string where
  "b64_alphabet = ''ABCDEFGHIJKLMNOPQRSTUVWXYZabcdefghijklmnopqrstuvwxyz0123456789+/''"

definition b64_char :: "nat \<Rightarrow> char" where
  "b64_char n = b64_alphabet ! n"

fun b64_encode :: "byte list \<Rightarrow> string" where
  "b64_encode (a # b # c # rest) =
     [b64_char (unat a div 4), b64_char (unat a mod 4 * 16 + unat b div 16),
      b64_char (unat b mod 16 * 4 + unat c div 64), b64_char (unat c mod 64)] @ b64_encode rest"
| "b64_encode [a, b] =
     [b64_char (unat a div 4), b64_char (unat a mod 4 * 16 + unat b div 16),
      b64_char (unat b mod 16 * 4), CHR ''='']"
| "b64_encode [a] = [b64_char (unat a div 4), b64_char (unat a mod 4 * 16), CHR ''='', CHR ''='']"
| "b64_encode [] = []"

definition b64_value :: "char \<Rightarrow> nat list" where
  "b64_value ch =
     (let n = (of_char ch :: nat)
      in if 65 \<le> n \<and> n \<le> 90 then [n - 65]
         else if 97 \<le> n \<and> n \<le> 122 then [n - 71]
         else if 48 \<le> n \<and> n \<le> 57 then [n + 4]
         else if n = 43 then [62]
         else if n = 47 then [63]
         else [])"

fun b64_groups :: "nat list \<Rightarrow> byte list" where
  "b64_groups (a # b # c # d # rest) =
     [of_nat (a * 4 + b div 16), of_nat (b mod 16 * 16 + c div 4), of_nat (c mod 4 * 64 + d)]
     @ b64_groups rest"
| "b64_groups [a, b, c] = [of_nat (a * 4 + b div 16), of_nat (b mod 16 * 16 + c div 4)]"
| "b64_groups [a, b] = [of_nat (a * 4 + b div 16)]"
| "b64_groups [a] = []"
| "b64_groups [] = []"

definition b64_decode :: "string \<Rightarrow> byte list" where
  "b64_decode s = b64_groups (concat (map b64_value (takeWhile (\<lambda>ch. ch \<noteq> CHR ''='') s)))"

definition text_bytes :: "string \<Rightarrow> byte list" where
  "text_bytes s = map (\<lambda>ch. of_nat (of_char ch)) s"

definition bytes_text :: "byte list \<Rightarrow> string" where
  "bytes_text bs = map (\<lambda>b. char_of (unat b)) bs"

definition sum_digest :: "nat \<Rightarrow> byte list \<Rightarrow> byte list" where
  "sum_digest n bs = replicate n (foldr (+) bs (of_nat (length bs)))"

definition digit_char :: "nat \<Rightarrow> char" where
  "digit_char n = ''0123456789'' ! n"

function show_nat :: "nat \<Rightarrow> string" where
  "show_nat n = (if n < 10 then [digit_char n] else show_nat (n div 10) @ [digit_char (n mod 10)])"
  by pat_completeness auto
termination
  by (relation "measure (\<lambda>n. n)") auto

declare show_nat.simps [simp del]

definition show_int :: "int \<Rightarrow> string" where
  "show_int i = (if i < 0 then CHR ''-'' # show_nat (nat (- i)) else show_nat (nat i))"

definition json_quote :: "string \<Rightarrow> string" where
  "json_quote s =
     [CHR 0x22]
     @ concat (map (\<lambda>c. if c = CHR 0x22 \<or> c = CHR 0x5C then [CHR 0x5C, c] else [c]) s)
     @ [CHR 0x22]"

fun commas :: "string list \<Rightarrow> string" where
  "commas [] = []"
| "commas [x] = x"
| "commas (x # y # ys) = x @ '','' @ commas (y # ys)"

fun json_text :: "json \<Rightarrow> string" where
  "json_text JNull = ''null''"
| "json_text (JBool b) = (if b then ''true'' else ''false'')"
| "json_text (JNumber i) = show_int i"
| "json_text (JString s) = json_quote s"
| "json_text (JArray xs) = ''['' @ commas (map json_text xs) @ '']''"
| "json_text (JObject ms) =
     ''{'' @ commas (map (\<lambda>(k, v). json_quote k @ '':'' @ json_text v) ms) @ ''}''"

fun read_string :: "string \<Rightarrow> string \<Rightarrow> (string \<times> string) option" where
  "read_string acc [] = None"
| "read_string acc [c] = (if c = CHR 0x22 then Some (acc, []) else None)"
| "read_string acc (c # d # cs) =
     (if c = CHR 0x22 then Some (acc, d # cs)
      else if c = CHR 0x5C then read_string (acc @ [d]) cs
      else read_string (acc @ [c]) (d # cs))"

fun read_digits :: "nat \<Rightarrow> string \<Rightarrow> nat \<times> string" where
  "read_digits acc [] = (acc, [])"
| "read_digits acc (c # cs) =
     (let n = (of_char c :: nat)
      in if 48 \<le> n \<and> n \<le> 57 then read_digits (acc * 10 + (n - 48)) cs else (acc, c # cs))"

text \<open>The reader of JSON text descends with a bound on the number of nested calls; the
  length of the text is enough.\<close>

fun read_value :: "nat \<Rightarrow> string \<Rightarrow> (json \<times> string) option"
  and read_elements :: "nat \<Rightarrow> json list \<Rightarrow> string \<Rightarrow> (json list \<times> string) option"
  and read_members ::
    "nat \<Rightarrow> (string \<times> json) list \<Rightarrow> string \<Rightarrow> ((string \<times> json) list \<times> string) option"
  where
  "read_value 0 s = None"
| "read_value (Suc n) s =
     (if take 4 s = ''null'' then Some (JNull, drop 4 s)
      else if take 4 s = ''true'' then Some (JBool True, drop 4 s)
      else if take 5 s = ''false'' then Some (JBool False, drop 5 s)
      else if take 2 s = ''[]'' then Some (JArray [], drop 2 s)
      else if take 2 s = ''{}'' then Some (JObject [], drop 2 s)
      else if take 1 s = ''[''
        then map_option (\<lambda>(xs, r). (JArray xs, r)) (read_elements n [] (drop 1 s))
      else if take 1 s = ''{''
        then map_option (\<lambda>(ms, r). (JObject ms, r)) (read_members n [] (drop 1 s))
      else if take 1 s = [CHR 0x22]
        then map_option (\<lambda>(t, r). (JString t, r)) (read_string [] (drop 1 s))
      else if take 1 s = ''-''
        then (case read_digits 0 (drop 1 s) of
                (v, r) \<Rightarrow> if r = drop 1 s then None else Some (JNumber (- int v), r))
      else (case read_digits 0 s of
              (v, r) \<Rightarrow> if r = s then None else Some (JNumber (int v), r)))"
| "read_elements 0 acc s = None"
| "read_elements (Suc n) acc s =
     (case read_value n s of
        None \<Rightarrow> None
      | Some (v, r) \<Rightarrow>
          if take 1 r = '','' then read_elements n (acc @ [v]) (drop 1 r)
          else if take 1 r = '']'' then Some (acc @ [v], drop 1 r)
          else None)"
| "read_members 0 acc s = None"
| "read_members (Suc n) acc s =
     (if take 1 s \<noteq> [CHR 0x22] then None
      else (case read_string [] (drop 1 s) of
              None \<Rightarrow> None
            | Some (k, r) \<Rightarrow>
                if take 1 r \<noteq> '':'' then None
                else (case read_value n (drop 1 r) of
                        None \<Rightarrow> None
                      | Some (v, r') \<Rightarrow>
                          if take 1 r' = '','' then read_members n (acc @ [(k, v)]) (drop 1 r')
                          else if take 1 r' = ''}'' then Some (acc @ [(k, v)], drop 1 r')
                          else None)))"

definition json_read :: "string \<Rightarrow> js_error + json" where
  "json_read s =
     (case read_value (Suc (length s)) s of
        Some (v, []) \<Rightarrow> Inr v
      | _ \<Rightarrow> Inl SyntaxError)"

definition ref_platform :: platform where
  "ref_platform =
     \<lparr>sha256 = sum_digest 32, sha512 = sum_digest 64,
      textEncode = text_bytes, textDecode = bytes_text,
      toBase64 = b64_encode, fromBase64 = b64_decode,
      jsonStringify = json_text, jsonParse = json_read\<rparr>"

section \<open>Facts about the header codec\<close>

lemma be32_join:
  fixes n :: int
  shows "(n div 16777216) * 16777216 + (n div 65536 mod 256) * 65536
          + (n div 256 mod 256) * 256 + n mod 256 = n"
proof -
  have d2: "n div 65536 = n div 256 div 256"
    using zdiv_zmult2_eq [of 256 n 256] by simp
  have d3: "n div 16777216 = n div 65536 div 256"
    using zdiv_zmult2_eq [of 256 n 65536] by simp
  have s1: "n = (n div 256) * 256 + n mod 256" by simp
  have s2: "n div 256 = (n div 65536) * 256 + n div 256 mod 256"
    unfolding d2 by simp
  have s3: "n div 65536 = (n div 16777216) * 256 + n div 65536 mod 256"
    unfolding d3 by simp
  have "n = (((n div 16777216) * 256 + n div 65536 mod 256) * 256 + n div 256 mod 256) * 256
             + n mod 256"
    using s1 s2 s3 by metis
  then show ?thesis by (simp add: algebra_simps)
qed

lemma top_byte_small:
  fixes n :: int
  assumes "0 \<le> n" "n < 4294967296"
  shows "n div 16777216 mod 256 = n div 16777216"
proof -
  have a: "n div 16777216 * 16777216 + n mod 16777216 = n" by simp
  have b: "0 \<le> n mod 16777216" by simp
  have "n div 16777216 < 256" using a b assms by linarith
  moreover have "0 \<le> n div 16777216" using assms by (simp add: pos_imp_zdiv_nonneg_iff)
  ultimately show ?thesis by simp
qed

lemma hi_byte_small:
  fixes n :: int
  assumes "0 \<le> n" "n < 65536"
  shows "n div 256 mod 256 = n div 256"
proof -
  have a: "n div 256 * 256 + n mod 256 = n" by simp
  have b: "0 \<le> n mod 256" by simp
  have "n div 256 < 256" using a b assms by linarith
  moreover have "0 \<le> n div 256" using assms by (simp add: pos_imp_zdiv_nonneg_iff)
  ultimately show ?thesis by simp
qed

lemma uint_byte_mod: "uint (word_of_int k :: byte) = k mod 256"
  by (simp add: uint_word_of_int)

lemma read_be32:
  fixes n :: int
  assumes "0 \<le> n" "n < 4294967296"
  shows "uint (word_of_int (n div 16777216) :: byte) * 16777216
         + uint (word_of_int (n div 65536 mod 256) :: byte) * 65536
         + uint (word_of_int (n div 256 mod 256) :: byte) * 256
         + uint (word_of_int (n mod 256) :: byte) = n"
proof -
  have "uint (word_of_int (n div 16777216) :: byte) = n div 16777216"
    unfolding uint_byte_mod by (rule top_byte_small [OF assms])
  moreover have "uint (word_of_int (n div 65536 mod 256) :: byte) = n div 65536 mod 256"
    unfolding uint_byte_mod by (rule mod_mod_trivial)
  moreover have "uint (word_of_int (n div 256 mod 256) :: byte) = n div 256 mod 256"
    unfolding uint_byte_mod by (rule mod_mod_trivial)
  moreover have "uint (word_of_int (n mod 256) :: byte) = n mod 256"
    unfolding uint_byte_mod by (rule mod_mod_trivial)
  ultimately show ?thesis using be32_join [of n] by presburger
qed

lemma read_be16:
  fixes n :: int
  assumes "0 \<le> n" "n < 65536"
  shows "uint (word_of_int (n div 256) :: byte) * 256
         + uint (word_of_int (n mod 256) :: byte) = n"
proof -
  have "uint (word_of_int (n div 256) :: byte) = n div 256"
    unfolding uint_byte_mod by (rule hi_byte_small [OF assms])
  moreover have "uint (word_of_int (n mod 256) :: byte) = n mod 256"
    unfolding uint_byte_mod by (rule mod_mod_trivial)
  ultimately show ?thesis by simp
qed

lemma js_and_mask: "js_and t 0xFFFFFFFF mod 4294967296 = t mod 4294967296"
proof -
  have m: "(word_of_int 4294967295 :: 32 word) = - 1" by simp
  have "js_and t 0xFFFFFFFF = sint (word_of_int t :: 32 word)"
    unfolding js_and_def m by simp
  also have "\<dots> = (t + 2147483648) mod 4294967296 - 2147483648"
    by (simp add: int_word_sint)
  finally have "js_and t 0xFFFFFFFF mod 4294967296
      = ((t + 2147483648) mod 4294967296 - 2147483648) mod 4294967296"
    by simp
  also have "\<dots> = (t + 2147483648 - 2147483648) mod 4294967296"
    by (rule mod_diff_left_eq)
  finally show ?thesis by simp
qed

lemma js_and_now: "js_and 1700000000000 0xFFFFFFFF = - 807049216"
proof -
  have m: "(word_of_int 4294967295 :: 32 word) = - 1" by simp
  have "js_and 1700000000000 0xFFFFFFFF = sint (word_of_int 1700000000000 :: 32 word)"
    unfolding js_and_def m by simp
  also have "\<dots> = (1700000000000 + 2147483648) mod 4294967296 - 2147483648"
    by (simp only: int_word_sint) simp
  finally show ?thesis by simp
qed

lemma encodeHeader_bytes:
  "encodeHeader h = Inr
     [0x42, 0x51, word_of_int (h_version h mod 256), word_of_int (h_type h mod 256),
      word_of_int (h_sequence h mod 4294967296 div 16777216),
      word_of_int (h_sequence h mod 4294967296 div 65536 mod 256),
      word_of_int (h_sequence h mod 4294967296 div 256 mod 256),
      word_of_int (h_sequence h mod 4294967296 mod 256),
      word_of_int (h_timestamp h mod 4294967296 div 16777216),
      word_of_int (h_timestamp h mod 4294967296 div 65536 mod 256),
      word_of_int (h_timestamp h mod 4294967296 div 256 mod 256),
      word_of_int (h_timestamp h mod 4294967296 mod 256),
      word_of_int (h_length h mod 65536 div 256), word_of_int (h_length h mod 65536 mod 256),
      word_of_int (h_flags h mod 65536 div 256), word_of_int (h_flags h mod 65536 mod 256)]"
  by (simp add: encodeHeader_def bindE_def setUint8_def setUint16_def setUint32_def
      BARQ_HEADER_SIZE_def Let_def js_and_mask numeral_eq_Suc)

lemma decodeHeader_eq:
  "decodeHeader data =
     Inr (if 16 \<le> length data \<and> data ! 0 = 0x42 \<and> data ! 1 = 0x51
          then Some \<lparr>h_version = uint (data ! 2), h_type = uint (data ! 3),
                 h_sequence = uint (data ! 4) * 16777216 + uint (data ! 5) * 65536
                              + uint (data ! 6) * 256 + uint (data ! 7),
                 h_timestamp = uint (data ! 8) * 16777216 + uint (data ! 9) * 65536
                              + uint (data ! 10) * 256 + uint (data ! 11),
                 h_length = uint (data ! 12) * 256 + uint (data ! 13),
                 h_flags = uint (data ! 14) * 256 + uint (data ! 15)\<rparr>
          else None)"
proof -
  have w: "(uint (x :: byte) = 66) = (x = 66)" "(uint (x :: byte) = 81) = (x = 81)" for x
    by (simp_all add: word_uint_eq_iff)
  show ?thesis
    by (simp add: decodeHeader_def bindE_def getUint8_def getUint16_def getUint32_def
      BARQ_HEADER_SIZE_def w)
qed


section \<open>Claims about the header codec\<close>

text \<open>
  Claim C5 as stated (``decoding recovers header fields identical to the originals'')
  fails for the timestamp: \<open>encodeHeader\<close> takes a millisecond timestamp and stores its
  lower 32 bits. The header with timestamp 1700000000000 and every other field in range
  is encoded with the timestamp bytes \<open>CF E5 68 00\<close>, and \<open>decodeHeader\<close> returns the
  timestamp 3487918080. The header that \<open>createDataPacket\<close> builds at that time has the
  timestamp \<open>Date.now() & 0xFFFFFFFF = -807049216\<close>, is encoded to the same bytes, and
  comes back with 3487918080 as well.
\<close>

theorem header_timestamp_counterexample:
  "encodeHeader \<lparr>h_version = 1, h_type = 1, h_sequence = 0, h_timestamp = 1700000000000,
                  h_length = 0, h_flags = 0\<rparr>
     = Inr [0x42, 0x51, 1, 1, 0, 0, 0, 0, 207, 229, 104, 0, 0, 0, 0, 0]
   \<and> decodeHeader [0x42, 0x51, 1, 1, 0, 0, 0, 0, 207, 229, 104, 0, 0, 0, 0, 0]
     = Inr (Some \<lparr>h_version = 1, h_type = 1, h_sequence = 0, h_timestamp = 3487918080,
                   h_length = 0, h_flags = 0\<rparr>)
   \<and> decodeHeader [0x42, 0x51, 1, 1, 0, 0, 0, 0, 207, 229, 104, 0, 0, 0, 0, 0]
     \<noteq> Inr (Some \<lparr>h_version = 1, h_type = 1, h_sequence = 0, h_timestamp = 1700000000000,
                   h_length = 0, h_flags = 0\<rparr>)
   \<and> js_and 1700000000000 0xFFFFFFFF = - 807049216
   \<and> encodeHeader \<lparr>h_version = 1, h_type = 1, h_sequence = 0, h_timestamp = - 807049216,
                  h_length = 0, h_flags = 0\<rparr>
     = Inr [0x42, 0x51, 1, 1, 0, 0, 0, 0, 207, 229, 104, 0, 0, 0, 0, 0]"
  unfolding encodeHeader_bytes decodeHeader_eq js_and_now
  by simp

text \<open>
  Claim C5, amended (header round trip and wire layout). For every header with version
  and type in one byte, sequence in \<open>0..2^32-1\<close>, payload length and flags in two bytes,
  and for every payload, \<open>encodeHeader\<close> does not throw and yields 16 bytes laid out
  big-endian: bytes 0-1 the magic \<open>0x42 0x51\<close>, byte 2 the version, byte 3 the type,
  bytes 4-7 the sequence, bytes 8-11 the timestamp modulo \<open>2^32\<close>, bytes 12-13 the payload
  length, bytes 14-15 the flags. \<open>decodeHeader\<close> on these bytes followed by the payload
  gives back version, type, sequence, payload length and flags as they were and the
  timestamp modulo \<open>2^32\<close>: the header itself when its timestamp is in \<open>0..2^32-1\<close>.
\<close>

theorem header_roundtrip:
  assumes v: "0 \<le> h_version h" "h_version h < 256"
    and t: "0 \<le> h_type h" "h_type h < 256"
    and s: "0 \<le> h_sequence h" "h_sequence h < 4294967296"
    and l: "0 \<le> h_length h" "h_length h < 65536"
    and f: "0 \<le> h_flags h" "h_flags h < 65536"
  shows "\<exists>bytes. encodeHeader h = Inr bytes \<and> length bytes = 16
           \<and> bytes ! 0 = 0x42 \<and> bytes ! 1 = 0x51
           \<and> uint (bytes ! 2) = h_version h \<and> uint (bytes ! 3) = h_type h
           \<and> uint (bytes ! 4) * 16777216 + uint (bytes ! 5) * 65536
               + uint (bytes ! 6) * 256 + uint (bytes ! 7) = h_sequence h
           \<and> uint (bytes ! 8) * 16777216 + uint (bytes ! 9) * 65536
               + uint (bytes ! 10) * 256 + uint (bytes ! 11) = h_timestamp h mod 4294967296
           \<and> uint (bytes ! 12) * 256 + uint (bytes ! 13) = h_length h
           \<and> uint (bytes ! 14) * 256 + uint (bytes ! 15) = h_flags h
           \<and> decodeHeader (bytes @ payload)
               = Inr (Some (h\<lparr>h_timestamp := h_timestamp h mod 4294967296\<rparr>))
           \<and> (0 \<le> h_timestamp h \<and> h_timestamp h < 4294967296
                \<longrightarrow> decodeHeader (bytes @ payload) = Inr (Some h))"
proof -
  define ts where "ts = h_timestamp h mod 4294967296"
  have tsr: "0 \<le> ts" "ts < 4294967296" by (simp_all add: ts_def)
  have m: "h_version h mod 256 = h_version h" "h_type h mod 256 = h_type h"
    "h_sequence h mod 4294967296 = h_sequence h" "h_length h mod 65536 = h_length h"
    "h_flags h mod 65536 = h_flags h"
    using v t s l f by simp_all
  have b1: "uint (word_of_int (h_version h) :: byte) = h_version h"
    "uint (word_of_int (h_type h) :: byte) = h_type h"
    using v t by (simp_all add: uint_byte_mod)
  note rd = read_be32 [OF s] read_be32 [OF tsr] read_be16 [OF l] read_be16 [OF f]
  let ?bytes = "[0x42, 0x51, word_of_int (h_version h), word_of_int (h_type h),
      word_of_int (h_sequence h div 16777216),
      word_of_int (h_sequence h div 65536 mod 256),
      word_of_int (h_sequence h div 256 mod 256),
      word_of_int (h_sequence h mod 256),
      word_of_int (ts div 16777216),
      word_of_int (ts div 65536 mod 256),
      word_of_int (ts div 256 mod 256),
      word_of_int (ts mod 256),
      word_of_int (h_length h div 256), word_of_int (h_length h mod 256),
      word_of_int (h_flags h div 256), word_of_int (h_flags h mod 256)] :: byte list"
  have enc: "encodeHeader h = Inr ?bytes"
    unfolding encodeHeader_bytes m ts_def by (rule refl)
  have dec: "decodeHeader (?bytes @ payload) = Inr (Some (h\<lparr>h_timestamp := ts\<rparr>))"
    unfolding decodeHeader_eq by (simp add: rd b1)
  have idt: "0 \<le> h_timestamp h \<and> h_timestamp h < 4294967296 \<longrightarrow> h\<lparr>h_timestamp := ts\<rparr> = h"
    by (simp add: ts_def)
  show ?thesis
    apply (rule exI [of _ ?bytes])
    apply (simp only: enc dec)
    using idt apply (simp add: rd b1 ts_def [symmetric])
    done
qed

theorem header_roundtrip_witness:
  "\<exists>bytes. encodeHeader \<lparr>h_version = 1, h_type = 1, h_sequence = 7, h_timestamp = 1000,
                            h_length = 3, h_flags = 0\<rparr> = Inr bytes
     \<and> length bytes = 16
     \<and> decodeHeader (bytes @ [1, 2, 3])
         = Inr (Some \<lparr>h_version = 1, h_type = 1, h_sequence = 7, h_timestamp = 1000,
                       h_length = 3, h_flags = 0\<rparr>)"
proof -
  let ?h = "\<lparr>h_version = 1, h_type = 1, h_sequence = 7, h_timestamp = 1000,
             h_length = 3, h_flags = 0\<rparr>"
  have "\<exists>bytes. encodeHeader ?h = Inr bytes \<and> length bytes = 16
           \<and> bytes ! 0 = 0x42 \<and> bytes ! 1 = 0x51
           \<and> uint (bytes ! 2) = h_version ?h \<and> uint (bytes ! 3) = h_type ?h
           \<and> uint (bytes ! 4) * 16777216 + uint (bytes ! 5) * 65536
               + uint (bytes ! 6) * 256 + uint (bytes ! 7) = h_sequence ?h
           \<and> uint (bytes ! 8) * 16777216 + uint (bytes ! 9) * 65536
               + uint (bytes ! 10) * 256 + uint (bytes ! 11) = h_timestamp ?h mod 4294967296
           \<and> uint (bytes ! 12) * 256 + uint (bytes ! 13) = h_length ?h
           \<and> uint (bytes ! 14) * 256 + uint (bytes ! 15) = h_flags ?h
           \<and> decodeHeader (bytes @ [1, 2, 3])
               = Inr (Some (?h\<lparr>h_timestamp := h_timestamp ?h mod 4294967296\<rparr>))
           \<and> (0 \<le> h_timestamp ?h \<and> h_timestamp ?h < 4294967296
                \<longrightarrow> decodeHeader (bytes @ [1, 2, 3]) = Inr (Some ?h))"
    by (rule header_roundtrip) simp_all
  then obtain bytes where "encodeHeader ?h = Inr bytes" "length bytes = 16"
    "0 \<le> h_timestamp ?h \<and> h_timestamp ?h < 4294967296
       \<longrightarrow> decodeHeader (bytes @ [1, 2, 3]) = Inr (Some ?h)"
    by blast
  then show ?thesis by simp
qed

text \<open>
  Claim C9 (decoding is total). For every byte string \<open>decodeHeader\<close> returns and never
  throws: the result is \<open>null\<close> when the input has fewer than 16 bytes or does not start
  with the magic bytes \<open>0x42 0x51\<close>, and otherwise the header read big-endian from the
  first 16 bytes.
\<close>

theorem decodeHeader_total:
  "(\<forall>e. decodeHeader data \<noteq> Inl e)
   \<and> decodeHeader data =
     Inr (if length data < 16 then None
          else if data ! 0 = 0x42 \<and> data ! 1 = 0x51
          then Some \<lparr>h_version = uint (data ! 2), h_type = uint (data ! 3),
                 h_sequence = uint (data ! 4) * 16777216 + uint (data ! 5) * 65536
                              + uint (data ! 6) * 256 + uint (data ! 7),
                 h_timestamp = uint (data ! 8) * 16777216 + uint (data ! 9) * 65536
                              + uint (data ! 10) * 256 + uint (data ! 11),
                 h_length = uint (data ! 12) * 256 + uint (data ! 13),
                 h_flags = uint (data ! 14) * 256 + uint (data ! 15)\<rparr>
          else None)"
  unfolding decodeHeader_eq by simp


section \<open>Facts about the gap tracker and the flow controller\<close>

lemma onReceive_loop_nacks:
  "snd (onReceive_loop i sequence gs nacks) = nacks @ [i..sequence - 1]"
proof (induction i sequence gs nacks rule: onReceive_loop.induct)
  case (1 i sequence gs nacks)
  show ?case
  proof (cases "i < sequence")
    case True
    then have "[i..sequence - 1] = i # [i + 1..sequence - 1]"
      by (simp add: upto_rec1)
    with True "1.IH" show ?thesis
      by (subst onReceive_loop.simps) simp
  next
    case False
    then show ?thesis by (subst onReceive_loop.simps) simp
  qed
qed

lemma onReceive_loop_gaps:
  "set (fst (onReceive_loop i sequence gs nacks)) = set gs \<union> {i..<sequence}"
proof (induction i sequence gs nacks rule: onReceive_loop.induct)
  case (1 i sequence gs nacks)
  show ?case
  proof (cases "i < sequence")
    case True
    have "set (Set_add gs i) = insert i (set gs)" by (auto simp: Set_add_def)
    moreover have "insert i {i + 1..<sequence} = {i..<sequence}" using True by auto
    ultimately show ?thesis using True "1.IH"
      by (subst onReceive_loop.simps) auto
  next
    case False
    then show ?thesis by (subst onReceive_loop.simps) simp
  qed
qed

lemma onReceive_Some:
  assumes "states peerId = Some st"
  shows "onReceive states now peerId sequence =
     ((if sequence > expectedSequence st then [expectedSequence st..sequence - 1] else []),
      states(peerId \<mapsto> st\<lparr>lastReceived := now, missedPulses := 0,
        gaps := Set_delete
          (if sequence > expectedSequence st
           then fst (onReceive_loop (expectedSequence st) sequence (gaps st) [])
           else gaps st) sequence,
        expectedSequence := max (expectedSequence st) (sequence + 1)\<rparr>))"
proof -
  obtain gs nacks where L:
    "onReceive_loop (expectedSequence st) sequence (gaps st) [] = (gs, nacks)"
    by (cases "onReceive_loop (expectedSequence st) sequence (gaps st) []")
  have "nacks = [expectedSequence st..sequence - 1]"
    using onReceive_loop_nacks [of "expectedSequence st" sequence "gaps st" "[]"] L by simp
  with assms L show ?thesis
    by (simp add: onReceive_def Let_def)
qed

lemma initialized_cwnd:
  assumes "initialized flows" "flows p = Some f"
  shows "MIN_CWND \<le> congestionWindow f \<and> congestionWindow f \<le> MAX_CWND"
  using assms
proof (induction arbitrary: p f rule: initialized.induct)
  case start
  then show ?case by simp
next
  case (init flows peerId)
  then show ?case
    by (auto simp: initFlow_def MIN_CWND_def MAX_CWND_def INITIAL_CWND_def split: if_splits)
next
  case (send flows peerId bytes)
  then show ?case
    by (auto simp: onSend_def split: option.splits if_splits)
next
  case (ack flows peerId bytes rtt)
  show ?case
  proof (cases "flows peerId")
    case None
    with ack show ?thesis by (simp add: onAck_def)
  next
    case (Some g)
    from ack.IH [OF Some] have b: "MIN_CWND \<le> congestionWindow g" "congestionWindow g \<le> MAX_CWND"
      by simp_all
    then have pos: "0 < congestionWindow g" by (simp add: MIN_CWND_def)
    define d where "d = 1 / congestionWindow g"
    have "0 < d" using pos by (simp add: d_def)
    with b have "MIN_CWND \<le> min MAX_CWND (congestionWindow g + d)"
      unfolding MIN_CWND_def MAX_CWND_def by linarith
    then have grow: "MIN_CWND \<le> min MAX_CWND (congestionWindow g + 1 / congestionWindow g)"
      by (simp only: d_def)
    show ?thesis
    proof (cases "p = peerId")
      case True
      with ack.prems Some b grow pos show ?thesis
        by (auto simp: onAck_def Let_def split: if_splits)
    next
      case False
      with ack.prems Some have "flows p = Some f" by (simp add: onAck_def Let_def)
      then show ?thesis by (rule ack.IH)
    qed
  qed
next
  case (loss flows peerId)
  show ?case
  proof (cases "flows peerId")
    case None
    with loss show ?thesis by (simp add: onLoss_def)
  next
    case (Some g)
    from loss.IH [OF Some] have b: "MIN_CWND \<le> congestionWindow g" "congestionWindow g \<le> MAX_CWND"
      by simp_all
    have "of_int \<lfloor>congestionWindow g / 2\<rfloor> \<le> congestionWindow g / 2"
      by (rule of_int_floor_le)
    with b have fl: "of_int \<lfloor>congestionWindow g / 2\<rfloor> \<le> MAX_CWND"
      unfolding MIN_CWND_def MAX_CWND_def by linarith
    show ?thesis
    proof (cases "p = peerId")
      case True
      with loss.prems Some b fl show ?thesis
        by (auto simp: onLoss_def Let_def MIN_CWND_def MAX_CWND_def)
    next
      case False
      with loss.prems Some have "flows p = Some f" by (simp add: onLoss_def Let_def)
      then show ?thesis by (rule loss.IH)
    qed
  qed
next
  case (timer flows peerId)
  then show ?case
    by (auto simp: recover_def split: option.splits if_splits)
next
  case (clean flows peerId)
  then show ?case
    by (auto simp: sayl_cleanup_def split: if_splits)
qed

section \<open>Claims about the gap tracker\<close>

text \<open>
  Claim C4 (gap detection). For a peer that has tracker state, \<open>onReceive\<close> returns
  exactly the integers from \<open>expectedSequence\<close> up to \<open>sequence - 1\<close> when
  \<open>sequence > expectedSequence\<close> and the empty list otherwise; the gap set afterwards is
  the old one with the returned sequences added and the received sequence removed (so a
  sequence at or below the expected one opens no gap, and the received sequence is never
  left in the set); \<open>expectedSequence\<close> becomes \<open>max expectedSequence (sequence + 1)\<close>.
  After receiving 0, 1 and 3 in that order on a freshly initialised peer, the third call
  returns exactly \<open>[2]\<close>.
\<close>

theorem onReceive_gaps:
  assumes "states peerId = Some st"
  shows "(case onReceive states now peerId sequence of
            (nacks, states') \<Rightarrow>
              (\<exists>st'. states' peerId = Some st'
                 \<and> nacks = (if sequence > expectedSequence st
                             then [expectedSequence st..sequence - 1] else [])
                 \<and> set (gaps st') = (set (gaps st) \<union> set nacks) - {sequence}
                 \<and> set nacks \<subseteq> set (gaps st')
                 \<and> sequence \<notin> set (gaps st')
                 \<and> expectedSequence st' = max (expectedSequence st) (sequence + 1)))
         \<and> (let s0 = initTiming Map.empty t0 p;
                 s1 = snd (onReceive s0 t1 p 0);
                 s2 = snd (onReceive s1 t2 p 1)
             in fst (onReceive s2 t3 p 3) = [2])"
proof -
  have first: "(case onReceive states now peerId sequence of
            (nacks, states') \<Rightarrow>
              (\<exists>st'. states' peerId = Some st'
                 \<and> nacks = (if sequence > expectedSequence st
                             then [expectedSequence st..sequence - 1] else [])
                 \<and> set (gaps st') = (set (gaps st) \<union> set nacks) - {sequence}
                 \<and> set nacks \<subseteq> set (gaps st')
                 \<and> sequence \<notin> set (gaps st')
                 \<and> expectedSequence st' = max (expectedSequence st) (sequence + 1)))"
  proof (cases "sequence > expectedSequence st")
    case True
    then show ?thesis
      unfolding onReceive_Some [where states=states and peerId=peerId, OF assms]
      by (auto simp: Set_delete_def onReceive_loop_gaps)
  next
    case False
    then show ?thesis
      unfolding onReceive_Some [where states=states and peerId=peerId, OF assms]
      by (auto simp: Set_delete_def)
  qed
  have second: "(let s0 = initTiming Map.empty t0 p;
                 s1 = snd (onReceive s0 t1 p 0);
                 s2 = snd (onReceive s1 t2 p 1)
             in fst (onReceive s2 t3 p 3) = [2])"
    by (simp add: onReceive_def initTiming_def Let_def onReceive_loop.simps
        split: prod.splits)
  from first second show ?thesis by simp
qed

theorem onReceive_gaps_witness:
  "(case onReceive (initTiming Map.empty 0 ''alice'') 5 ''alice'' 3 of
      (nacks, states') \<Rightarrow>
        (\<exists>st'. states' ''alice'' = Some st' \<and> nacks = [0, 1, 2]
            \<and> set (gaps st') = {0, 1, 2} \<and> expectedSequence st' = 4))"
proof -
  let ?st = "\<lparr>n_peerId = ''alice'', expectedSequence = 0, lastPulse = 0,
               missedPulses = 0, gaps = [], lastReceived = 0\<rparr>"
  have h: "(initTiming Map.empty 0 ''alice'') ''alice'' = Some ?st"
    by (simp add: initTiming_def)
  have u: "[0..(2::int)] = [0, 1, 2]" by (simp add: upto_rec1)
  show ?thesis
    using onReceive_gaps [where states = "initTiming Map.empty 0 ''alice''"
        and peerId = "''alice''" and st = ?st and now = 5 and sequence = 3, OF h, THEN conjunct1]
    by (auto simp: u)
qed

section \<open>Claims about the flow controller\<close>

text \<open>
  Claim C6 (multiplicative decrease with a floor). For every flow a program can reach,
  \<open>onLoss\<close> sets the congestion window to \<open>max MIN_CWND (floor (congestionWindow / 2))\<close>.
  The window of such a flow is between \<open>MIN_CWND\<close> and \<open>MAX_CWND\<close>, so \<open>onLoss\<close> never
  increases it, and it strictly decreases it down to the floor: the new window is smaller
  than the old one or it is \<open>MIN_CWND\<close>. It is strictly smaller whenever the old window is
  above \<open>MIN_CWND\<close>, and it stays \<open>MIN_CWND\<close> when the old window is \<open>MIN_CWND\<close>.
\<close>

theorem onLoss_decrease:
  assumes "flows peerId = Some flow"
  shows "(initialized flows \<longrightarrow>
            MIN_CWND \<le> congestionWindow flow \<and> congestionWindow flow \<le> MAX_CWND)
         \<and> (\<exists>flow'. fst (onLoss flows peerId) peerId = Some flow'
               \<and> congestionWindow flow' = max MIN_CWND (of_int \<lfloor>congestionWindow flow / 2\<rfloor>)
               \<and> (initialized flows
                    \<longrightarrow> congestionWindow flow' \<le> congestionWindow flow
                        \<and> (congestionWindow flow' < congestionWindow flow
                             \<or> congestionWindow flow' = MIN_CWND))
               \<and> (MIN_CWND \<le> congestionWindow flow
                    \<longrightarrow> congestionWindow flow' \<le> congestionWindow flow)
               \<and> (MIN_CWND < congestionWindow flow
                    \<longrightarrow> congestionWindow flow' < congestionWindow flow)
               \<and> (congestionWindow flow = MIN_CWND \<longrightarrow> congestionWindow flow' = MIN_CWND))"
proof -
  let ?c = "congestionWindow flow"
  let ?c' = "max MIN_CWND (of_int \<lfloor>?c / 2\<rfloor>)"
  have inv: "initialized flows \<longrightarrow> MIN_CWND \<le> ?c \<and> ?c \<le> MAX_CWND"
    using initialized_cwnd [where flows = flows and p = peerId and f = flow] assms by blast
  have h: "of_int \<lfloor>?c / 2\<rfloor> \<le> ?c / 2" by (rule of_int_floor_le)
  have le: "MIN_CWND \<le> ?c \<longrightarrow> ?c' \<le> ?c"
    using h unfolding MIN_CWND_def by linarith
  have lt: "MIN_CWND < ?c \<longrightarrow> ?c' < ?c"
    using h unfolding MIN_CWND_def by linarith
  have eq: "?c = MIN_CWND \<longrightarrow> ?c' = MIN_CWND"
    by (simp add: MIN_CWND_def)
  have dec: "initialized flows \<longrightarrow> ?c' \<le> ?c \<and> (?c' < ?c \<or> ?c' = MIN_CWND)"
    using inv le lt eq by (cases "?c = MIN_CWND") auto
  have "\<exists>flow'. fst (onLoss flows peerId) peerId = Some flow'
               \<and> congestionWindow flow' = ?c'
               \<and> (initialized flows
                    \<longrightarrow> congestionWindow flow' \<le> ?c
                        \<and> (congestionWindow flow' < ?c \<or> congestionWindow flow' = MIN_CWND))
               \<and> (MIN_CWND \<le> ?c \<longrightarrow> congestionWindow flow' \<le> ?c)
               \<and> (MIN_CWND < ?c \<longrightarrow> congestionWindow flow' < ?c)
               \<and> (?c = MIN_CWND \<longrightarrow> congestionWindow flow' = MIN_CWND)"
    using assms le lt eq dec by (simp add: onLoss_def Let_def)
  with inv show ?thesis by blast
qed

theorem onLoss_decrease_witness:
  "\<exists>flow'. fst (onLoss (initFlow Map.empty ''alice'') ''alice'') ''alice'' = Some flow'
      \<and> congestionWindow flow' = 5"
proof -
  let ?f = "\<lparr>s_peerId = ''alice'', congestionWindow = INITIAL_CWND, bytesInFlight = 0,
              packetsInFlight = 0, bandwidth = 0, rttMin = None, rttSmoothed = 100,
              throttled = False\<rparr>"
  have h: "(initFlow Map.empty ''alice'') ''alice'' = Some ?f"
    by (simp add: initFlow_def)
  show ?thesis
    using onLoss_decrease [where flows = "initFlow Map.empty ''alice''"
        and peerId = "''alice''" and flow = ?f, OF h]
    by (auto simp: INITIAL_CWND_def MIN_CWND_def)
qed

text \<open>
  The floor at work: two losses take the initial window 10 to 5 and to 2, and a third
  loss leaves it at 2.
\<close>

lemma onLoss_floor_example:
  "map_option congestionWindow
     (fst (onLoss (fst (onLoss (initFlow Map.empty ''peer'') ''peer'')) ''peer'') ''peer'')
     = Some 2
   \<and> map_option congestionWindow
     (fst (onLoss (fst (onLoss (fst (onLoss (initFlow Map.empty ''peer'') ''peer'')) ''peer''))
        ''peer'') ''peer'')
     = Some 2"
  by (simp add: onLoss_def initFlow_def Let_def MIN_CWND_def INITIAL_CWND_def)

text \<open>
  Claim C7 (unknown peer). For a peer that has no flow state, \<open>canSend\<close> returns true
  (unthrottled), \<open>onSend\<close>, \<open>onAck\<close> and \<open>onLoss\<close> leave the flow table as it is
  (\<open>onLoss\<close> registers no timer), \<open>getThroughput\<close> and \<open>getPacingDelay\<close> return 0,
  \<open>getStats\<close> returns \<open>null\<close> and \<open>cleanup\<close> changes nothing. None of these functions
  has a statement that can throw, so each is a total function here.
\<close>

theorem unknown_peer_noop:
  assumes "flows peerId = None"
  shows "canSend flows peerId
       \<and> onSend flows peerId bytes = flows
       \<and> onAck flows peerId bytes rtt = flows
       \<and> onLoss flows peerId = (flows, None)
       \<and> getThroughput flows peerId = 0
       \<and> getPacingDelay flows peerId = 0
       \<and> sayl_getStats flows peerId = None
       \<and> sayl_cleanup flows peerId = flows"
proof -
  have "flows(peerId := None) = flows" using assms by (auto simp: fun_eq_iff)
  with assms show ?thesis
    by (simp add: canSend_def onSend_def onAck_def onLoss_def getThroughput_def
        getPacingDelay_def sayl_getStats_def sayl_cleanup_def)
qed

theorem unknown_peer_noop_witness:
  "canSend (initFlow Map.empty ''alice'') ''bob''
   \<and> onSend (initFlow Map.empty ''alice'') ''bob'' 1200 = initFlow Map.empty ''alice''
   \<and> onAck (initFlow Map.empty ''alice'') ''bob'' 1200 40 = initFlow Map.empty ''alice''
   \<and> onLoss (initFlow Map.empty ''alice'') ''bob'' = (initFlow Map.empty ''alice'', None)"
proof -
  have h: "(initFlow Map.empty ''alice'') ''bob'' = None"
    by (simp add: initFlow_def)
  show ?thesis
    using unknown_peer_noop [where flows = "initFlow Map.empty ''alice''"
        and peerId = "''bob''" and bytes = 1200 and rtt = 40, OF h]
    by simp
qed


section \<open>Facts about the key store\<close>

lemma length_xorWithKey: "length (xorWithKey k bs) = length bs"
  by (simp add: xorWithKey_def)

lemma xorWithKey_involution: "xorWithKey k (xorWithKey k bs) = bs"
proof (rule nth_equalityI)
  show "length (xorWithKey k (xorWithKey k bs)) = length bs"
    by (simp add: length_xorWithKey)
next
  fix i assume "i < length (xorWithKey k (xorWithKey k bs))"
  then have i: "i < length bs" by (simp add: length_xorWithKey)
  have x: "(a XOR b) XOR b = a" for a b :: byte
    by (simp add: xor.assoc)
  from i show "xorWithKey k (xorWithKey k bs) ! i = bs ! i"
    by (simp add: xorWithKey_def x)
qed

lemma setUint32_prefix:
  "\<exists>buf. setUint32 (replicate (4 + k) 0) 0 n = Inr buf \<and> length (take 4 buf) = 4
      \<and> (\<forall>rest. getUint32 (take 4 buf @ rest) 0 = Inr (n mod 4294967296))"
proof -
  define m where "m = n mod 4294967296"
  have r: "0 \<le> m" "m < 4294967296" by (simp_all add: m_def)
  let ?b = "[word_of_int (m div 16777216), word_of_int (m div 65536 mod 256),
             word_of_int (m div 256 mod 256), word_of_int (m mod 256)] :: byte list"
  have s: "setUint32 (replicate (4 + k) 0) 0 n = Inr (?b @ replicate k 0)"
    by (simp add: setUint32_def Let_def m_def replicate_add numeral_eq_Suc)
  have g: "getUint32 (?b @ rest) 0 = Inr m" for rest
    using read_be32 [OF r] by (simp add: getUint32_def)
  show ?thesis
    unfolding s m_def [symmetric] using g by simp
qed

lemma fakk_fresh:
  assumes k: "keys peerId = Some m"
    and q: "getUint32 (fromBase64 P s) 0 = Inr S"
    and f: "S \<notin> set (puncturedSequences m)"
  shows "fakk P keys now peerId s =
     (Inr (Plaintext (textDecode P (xorWithKey (deriveSequenceKey P (masterSecret m) S)
                                      (drop 4 (fromBase64 P s))))),
      keys(peerId \<mapsto> thaqb m now S))"
  using k q f by (simp add: fakk_def fakk_try_def Let_def Set_has_def)

lemma fakk_punctured:
  assumes k: "keys peerId = Some m"
    and q: "getUint32 (fromBase64 P s) 0 = Inr S"
    and f: "S \<in> set (puncturedSequences m)"
  shows "fakk P keys now peerId s = (Inr ReplayDetected, keys)"
  using k q f by (simp add: fakk_def Let_def Set_has_def)

lemma thaqb_punctured: "S \<in> set (puncturedSequences (thaqb m now S))"
  by (simp add: thaqb_def Set_add_def)

lemma thaqb_keeps: "S \<in> set (puncturedSequences m) \<Longrightarrow> S \<in> set (puncturedSequences (thaqb m now T))"
  by (simp add: thaqb_def Set_add_def)

lemma fakk_never_DecryptionFailed: "fst (fakk P keys now peerId s) \<noteq> Inr DecryptionFailed"
  by (simp add: fakk_def fakk_try_def Let_def split: option.splits sum.splits)

lemma run_call_keeps:
  assumes "punctured_in keys peerId S" "\<not> destroys peerId c"
  shows "punctured_in (run_call P keys c) peerId S"
proof (cases c)
  case (Fataha now p priv pub)
  with assms show ?thesis by (simp add: fataha_def Let_def punctured_in_def)
next
  case (Tashfir p plaintext)
  with assms show ?thesis
    by (auto simp: tashfir_def Let_def punctured_in_def split: option.splits sum.splits)
next
  case (Fakk now p s)
  with assms show ?thesis
    by (auto simp: fakk_def fakk_try_def Let_def punctured_in_def thaqb_keeps
        split: option.splits sum.splits)
next
  case (Aghlaqa p)
  with assms show ?thesis by (auto simp: aghlaqa_def punctured_in_def split: option.splits)
qed

lemma run_calls_keeps:
  assumes "punctured_in keys peerId S" "\<forall>c \<in> set calls. \<not> destroys peerId c"
  shows "punctured_in (run_calls P keys calls) peerId S"
  using assms
proof (induction calls arbitrary: keys)
  case Nil
  then show ?case by simp
next
  case (Cons c cs)
  then show ?case by (simp add: run_call_keeps)
qed

section \<open>Facts about the reference platform\<close>

lemma bytes_text_bytes: "bytes_text (text_bytes s) = s"
proof -
  have "char_of (unat (of_nat (of_char ch) :: byte)) = ch" for ch :: char
  proof -
    have "(of_char ch :: nat) < 256" by simp
    then have "unat (of_nat (of_char ch) :: byte) = of_char ch"
      by (simp add: unat_of_nat)
    then show ?thesis by simp
  qed
  then show ?thesis
    by (simp add: bytes_text_def text_bytes_def map_idI)
qed

lemma b64_table:
  "list_all (\<lambda>n. b64_value (b64_char n) = [n] \<and> b64_char n \<noteq> CHR ''='') [0..<64]"
  by (simp add: eval_nat_numeral b64_char_def b64_alphabet_def b64_value_def)

lemma b64_value_char: "n < 64 \<Longrightarrow> b64_value (b64_char n) = [n]"
  using b64_table by (simp add: list_all_iff)

lemma b64_char_not_pad: "n < 64 \<Longrightarrow> b64_char n \<noteq> CHR ''=''"
  using b64_table by (simp add: list_all_iff)


lemma sextet_bounds:
  fixes a b c :: nat
  assumes "a < 256" "b < 256" "c < 256"
  shows "a div 4 < 64" "a mod 4 * 16 + b div 16 < 64" "b mod 16 * 4 + c div 64 < 64"
    "c mod 64 < 64"
proof -
  show "a div 4 < 64" using assms by simp
  have a4: "a mod 4 < 4" and b16: "b mod 16 < 16" by simp_all
  have bd: "b div 16 < 16" and cd: "c div 64 < 4" using assms by simp_all
  show "a mod 4 * 16 + b div 16 < 64" using a4 bd by linarith
  show "b mod 16 * 4 + c div 64 < 64" using b16 cd by linarith
  show "c mod 64 < 64" by simp
qed

lemma sextet_join:
  fixes a b c :: nat
  assumes "b < 256" "c < 256"
  shows "a div 4 * 4 + (a mod 4 * 16 + b div 16) div 16 = a"
    "(a mod 4 * 16 + b div 16) mod 16 * 16 + (b mod 16 * 4 + c div 64) div 4 = b"
    "(b mod 16 * 4 + c div 64) mod 4 * 64 + c mod 64 = c"
proof -
  have bd: "b div 16 < 16" and cd: "c div 64 < 4" using assms by simp_all
  have x: "(a mod 4 * 16 + b div 16) div 16 = a mod 4" using bd by simp
  have y: "(a mod 4 * 16 + b div 16) mod 16 = b div 16" using bd by simp
  have z: "(b mod 16 * 4 + c div 64) div 4 = b mod 16" using cd by simp
  have w: "(b mod 16 * 4 + c div 64) mod 4 = c div 64" using cd by simp
  show "a div 4 * 4 + (a mod 4 * 16 + b div 16) div 16 = a" unfolding x by simp
  show "(a mod 4 * 16 + b div 16) mod 16 * 16 + (b mod 16 * 4 + c div 64) div 4 = b"
    unfolding y z by simp
  show "(b mod 16 * 4 + c div 64) mod 4 * 64 + c mod 64 = c" unfolding w by simp
qed

lemma unat_byte_less: "unat (x :: byte) < 256"
proof -
  have "unat x < 2 ^ LENGTH(8)" by (rule unsigned_less)
  then show ?thesis by simp
qed

lemma b64_quad:
  assumes "s1 < 64" "s2 < 64" "s3 < 64" "s4 < 64"
  shows "b64_decode (b64_char s1 # b64_char s2 # b64_char s3 # b64_char s4 # rest)
         = [of_nat (s1 * 4 + s2 div 16), of_nat (s2 mod 16 * 16 + s3 div 4),
            of_nat (s3 mod 4 * 64 + s4)] @ b64_decode rest"
  using assms by (simp add: b64_decode_def b64_value_char b64_char_not_pad)

lemma b64_roundtrip: "b64_decode (b64_encode bs) = bs"
proof (induction bs rule: b64_encode.induct)
  case (1 a b c rest)
  note u = unat_byte_less [of a] unat_byte_less [of b] unat_byte_less [of c]
  note sb = sextet_bounds [OF u]
  note sj = sextet_join [OF u(2) u(3)]
  have "b64_decode (b64_encode (a # b # c # rest))
        = [of_nat (unat a), of_nat (unat b), of_nat (unat c)] @ b64_decode (b64_encode rest)"
    by (simp only: b64_encode.simps append_Cons append_Nil b64_quad [OF sb] sj)
  with 1 show ?case by simp
next
  case (2 a b)
  note u = unat_byte_less [of a] unat_byte_less [of b]
  have z: "(0::nat) < 256" by simp
  note sb = sextet_bounds [OF u z]
  note sj = sextet_join [OF u(2) z]
  have "b64_decode (b64_encode [a, b]) = [of_nat (unat a), of_nat (unat b)]"
    using sb sj by (simp add: b64_decode_def b64_value_char b64_char_not_pad)
  then show ?case by simp
next
  case (3 a)
  note u = unat_byte_less [of a]
  have z: "(0::nat) < 256" by simp
  note sb = sextet_bounds [OF u z z]
  note sj = sextet_join [OF z z]
  have "b64_decode (b64_encode [a]) = [of_nat (unat a)]"
    using sb sj by (simp add: b64_decode_def b64_value_char b64_char_not_pad)
  then show ?case by simp
next
  case 4
  show ?case by (simp add: b64_decode_def)
qed

lemma ref_platform_simps:
  "sha256 ref_platform = sum_digest 32" "sha512 ref_platform = sum_digest 64"
  "textEncode ref_platform = text_bytes" "textDecode ref_platform = bytes_text"
  "toBase64 ref_platform = b64_encode" "fromBase64 ref_platform = b64_decode"
  "jsonStringify ref_platform = json_text" "jsonParse ref_platform = json_read"
  by (simp_all add: ref_platform_def)


section \<open>More facts about the key store, the envelope and the packets\<close>

lemma fakk_success_punctures:
  assumes "fakk P keys now peerId s = (Inr (Plaintext text), keys1)"
    and "getUint32 (fromBase64 P s) 0 = Inr S"
  shows "punctured_in keys1 peerId S"
proof (cases "keys peerId")
  case None
  with assms show ?thesis by (simp add: fakk_def)
next
  case (Some m)
  show ?thesis
  proof (cases "S \<in> set (puncturedSequences m)")
    case True
    with assms Some show ?thesis by (simp add: fakk_punctured [where keys=keys and peerId=peerId])
  next
    case False
    from fakk_fresh [where keys=keys and peerId=peerId and now=now, OF Some assms(2) False] assms(1)
    have "keys1 = keys(peerId \<mapsto> thaqb m now S)" by simp
    then show ?thesis by (simp add: punctured_in_def thaqb_punctured)
  qed
qed

lemma punctured_in_replay:
  assumes "punctured_in keys peerId S" "getUint32 (fromBase64 P s) 0 = Inr S"
  shows "fakk P keys now peerId s = (Inr ReplayDetected, keys)"
proof -
  from assms(1) obtain m where "keys peerId = Some m" "S \<in> set (puncturedSequences m)"
    by (auto simp: punctured_in_def split: option.splits)
  then show ?thesis using assms(2) by (simp add: fakk_punctured [where keys=keys and peerId=peerId])
qed

lemma tashfir_Some:
  assumes "keys peerId = Some m"
  shows "\<exists>bytes. tashfir P keys peerId M =
           (Inr (Some (toBase64 P bytes, currentSequence m)),
            keys(peerId \<mapsto> m\<lparr>currentSequence := currentSequence m + 1\<rparr>))
         \<and> getUint32 bytes 0 = Inr (currentSequence m mod 4294967296)
         \<and> drop 4 bytes = xorWithKey (deriveSequenceKey P (masterSecret m) (currentSequence m))
                             (textEncode P M)"
proof -
  let ?enc = "xorWithKey (deriveSequenceKey P (masterSecret m) (currentSequence m)) (textEncode P M)"
  from setUint32_prefix [of "length ?enc" "currentSequence m"]
  obtain buf where b: "setUint32 (replicate (4 + length ?enc) 0) 0 (currentSequence m) = Inr buf"
    "length (take 4 buf) = 4"
    "\<And>rest. getUint32 (take 4 buf @ rest) 0 = Inr (currentSequence m mod 4294967296)"
    by blast
  show ?thesis
    apply (rule exI [of _ "take 4 buf @ ?enc"])
    using assms(1) b by (simp add: tashfir_def Let_def)
qed

lemma run_calls_tashfir:
  assumes "keys p = Some m"
  shows "run_calls P keys (replicate n (Tashfir p M))
         = keys(p \<mapsto> m\<lparr>currentSequence := currentSequence m + int n\<rparr>)"
  using assms
proof (induction n arbitrary: keys m)
  case 0
  then have "keys(p \<mapsto> m) = keys" by (auto simp: fun_eq_iff)
  then show ?case by simp
next
  case (Suc n)
  let ?m1 = "m\<lparr>currentSequence := currentSequence m + 1\<rparr>"
  from tashfir_Some [where keys = keys and peerId = p and P = P and M = M, OF Suc.prems]
  have s: "snd (tashfir P keys p M) = keys(p \<mapsto> ?m1)" by auto
  have k1: "(keys(p \<mapsto> ?m1)) p = Some ?m1" by simp
  show ?case
    by (auto simp: s Suc.IH [where keys = "keys(p \<mapsto> ?m1)" and m = ?m1, OF k1] add.assoc fun_eq_iff)
qed

lemma seq_AP8: "getUint32 (fromBase64 ref_platform ''AAAAAP8='') 0 = Inr 0"
  by (simp add: ref_platform_simps b64_decode_def b64_value_def getUint32_def)

lemma seq_AAA: "getUint32 (fromBase64 ref_platform ''AAAAAAA='') 0 = Inr 0"
  by (simp add: ref_platform_simps b64_decode_def b64_value_def getUint32_def)

lemma decryptPayload_Some:
  "decryptPayload P secret sequence ciphertext \<noteq> None"
  by (simp add: decryptPayload_def bindE_def setUint32_def Let_def)

lemma serializeTabaq_eq:
  assumes "length (textEncode P (jsonStringify P (zahir_json (zahir tabaq)))) < 4294967296"
  shows "\<exists>pre. length pre = 4
           \<and> serializeTabaq P tabaq =
               Inr (pre @ textEncode P (jsonStringify P (zahir_json (zahir tabaq)))
                    @ textEncode P (jsonStringify P (ghilaf_json P (ghilaf tabaq))))
           \<and> (\<forall>rest. getUint32 (pre @ rest) 0
                 = Inr (int (length (textEncode P (jsonStringify P (zahir_json (zahir tabaq)))))))"
proof -
  let ?zb = "textEncode P (jsonStringify P (zahir_json (zahir tabaq)))"
  let ?gb = "textEncode P (jsonStringify P (ghilaf_json P (ghilaf tabaq)))"
  have m: "int (length ?zb) mod 4294967296 = int (length ?zb)" using assms by simp
  from setUint32_prefix [of "length ?zb + length ?gb" "int (length ?zb)"]
  obtain buf where b: "setUint32 (replicate (4 + (length ?zb + length ?gb)) 0) 0 (int (length ?zb)) = Inr buf"
    "length (take 4 buf) = 4"
    "\<And>rest. getUint32 (take 4 buf @ rest) 0 = Inr (int (length ?zb) mod 4294967296)"
    by blast
  have s: "serializeTabaq P tabaq = Inr (take 4 buf @ ?zb @ ?gb)"
    using b(1) by (simp add: serializeTabaq_def Let_def bindE_def add.assoc)
  show ?thesis
    apply (rule exI [of _ "take 4 buf"])
    using s b(2) b(3) unfolding m by simp
qed

lemma satr_zahir:
  assumes "satr P keys now identity recipient b priority = (Inr (Some tabaq), keys1)"
  shows "senderId (zahir tabaq) = fullId identity \<and> recipientId (zahir tabaq) = recipient
         \<and> daraja (zahir tabaq) = priority \<and> z_version (zahir tabaq) = ZBAT_VERSION
         \<and> z_timestamp (zahir tabaq) = now"
  using assms
  by (auto simp: satr_def Let_def split: prod.splits sum.splits option.splits)

lemma length_b64_encode: "length (b64_encode bs) = 4 * ((length bs + 2) div 3)"
proof (induction bs rule: b64_encode.induct)
  case (1 a b c rest)
  have "(length (a # b # c # rest) + 2) div 3 = (length rest + 2 + 3) div 3"
    by (simp add: add.commute)
  also have "\<dots> = (length rest + 2) div 3 + 1"
    by (rule div_add_self2) simp
  finally show ?case using 1 by simp
qed simp_all

lemma getUint32_length: "getUint32 bytes 0 = Inr n \<Longrightarrow> 4 \<le> length bytes"
  by (simp add: getUint32_def split: if_splits)

section \<open>Claims about the key store\<close>

text \<open>
  Claim C1 (puncture invariant). Let a call of \<open>fakk\<close> for a peer succeed on a ciphertext
  that carries the sequence \<open>S\<close> (the first four bytes of the decoded input, big-endian).
  Then, after any further calls on the key store that do not destroy the peer's record
  (\<open>aghlaqa\<close> or a new \<open>fataha\<close> for that peer), every call of \<open>fakk\<close> for the peer on
  any input that carries \<open>S\<close> is rejected as a replay: it returns \<open>null\<close> and leaves the key
  store as it is. Retries are further calls, so this holds however often it is retried.
\<close>

theorem replay_after_success:
  assumes "fakk P keys now peerId s = (Inr (Plaintext text), keys1)"
    and "getUint32 (fromBase64 P s) 0 = Inr S"
    and "\<forall>c \<in> set calls. \<not> destroys peerId c"
    and "getUint32 (fromBase64 P s') 0 = Inr S"
  shows "fakk P (run_calls P keys1 calls) now' peerId s'
           = (Inr ReplayDetected, run_calls P keys1 calls)
         \<and> fakk_value ReplayDetected = None"
proof -
  have "punctured_in keys1 peerId S"
    using assms(1,2) by (rule fakk_success_punctures)
  then have "punctured_in (run_calls P keys1 calls) peerId S"
    using assms(3) by (rule run_calls_keeps)
  then show ?thesis using assms(4) by (simp add: punctured_in_replay)
qed

theorem replay_after_success_witness:
  "(let keys0 = [''bob'' \<mapsto> \<lparr>m_peerId = ''bob'', masterSecret = [1, 2, 3],
                    puncturedSequences = [], currentSequence = 0, created = 0,
                    lastPunctured = 0\<rparr>];
        keys1 = snd (fakk ref_platform keys0 1 ''bob'' ''AAAAAP8='');
        keys2 = run_calls ref_platform keys1
                  [Tashfir ''bob'' ''hi'', Fakk 2 ''bob'' ''AAAAAP8='',
                   Fataha 3 ''carol'' [7] [8], Aghlaqa ''carol'']
    in (\<exists>text. fst (fakk ref_platform keys0 1 ''bob'' ''AAAAAP8='') = Inr (Plaintext text))
       \<and> fakk ref_platform keys2 4 ''bob'' ''AAAAAAA='' = (Inr ReplayDetected, keys2))"
proof -
  let ?m = "\<lparr>m_peerId = ''bob'', masterSecret = [1, 2, 3], puncturedSequences = [],
             currentSequence = 0, created = 0, lastPunctured = 0\<rparr>"
  let ?keys0 = "[''bob'' \<mapsto> ?m]"
  let ?calls = "[Tashfir ''bob'' ''hi'', Fakk 2 ''bob'' ''AAAAAP8='',
                 Fataha 3 ''carol'' [7] [8], Aghlaqa ''carol'']"
  have k: "?keys0 ''bob'' = Some ?m" by simp
  have fr: "0 \<notin> set (puncturedSequences ?m)" by simp
  note f = fakk_fresh [where keys = ?keys0 and peerId = "''bob''" and now = 1, OF k seq_AP8 fr]
  have ok: "fakk ref_platform ?keys0 1 ''bob'' ''AAAAAP8=''
      = (Inr (Plaintext (textDecode ref_platform
            (xorWithKey (deriveSequenceKey ref_platform (masterSecret ?m) 0)
               (drop 4 (fromBase64 ref_platform ''AAAAAP8=''))))),
         snd (fakk ref_platform ?keys0 1 ''bob'' ''AAAAAP8=''))"
    unfolding f by simp
  have c: "\<forall>c \<in> set ?calls. \<not> destroys ''bob'' c" by simp
  from replay_after_success [OF ok seq_AP8 c seq_AAA, of 4]
  show ?thesis unfolding Let_def using ok by (metis fst_conv)
qed

text \<open>
  Claim C2 as stated (``a forged ciphertext for a fresh sequence is rejected as an
  authentication failure and does not puncture, so the legitimate ciphertext still
  decrypts'') fails: \<open>fakk\<close> has no authentication. With a record for \<open>bob\<close> and a
  legitimate ciphertext for sequence 0, the forged input \<open>AAAAAP8=\<close> (the bytes
  \<open>00 00 00 00 FF\<close>) is accepted, sequence 0 is punctured, and the legitimate ciphertext
  is then rejected as a replay.
\<close>

theorem forged_ciphertext_counterexample:
  "(let keys0 = [''bob'' \<mapsto> \<lparr>m_peerId = ''bob'', masterSecret = [1, 2, 3],
                    puncturedSequences = [], currentSequence = 0, created = 0,
                    lastPunctured = 0\<rparr>];
        legit = tashfir ref_platform keys0 ''bob'' ''hello'';
        forged = fakk ref_platform (snd legit) 1 ''bob'' ''AAAAAP8='';
        after = fakk ref_platform (snd forged) 2 ''bob''
                  (case fst legit of Inr (Some (encrypted, sq)) \<Rightarrow> encrypted | _ \<Rightarrow> [])
    in (case fst legit of Inr (Some (encrypted, sq)) \<Rightarrow> sq = 0 | _ \<Rightarrow> False)
       \<and> (case fst forged of Inr (Plaintext text) \<Rightarrow> True | _ \<Rightarrow> False)
       \<and> fst forged \<noteq> Inr DecryptionFailed
       \<and> punctured_in (snd forged) ''bob'' 0
       \<and> fst after = Inr ReplayDetected)"
proof -
  let ?m = "\<lparr>m_peerId = ''bob'', masterSecret = [1, 2, 3], puncturedSequences = [],
             currentSequence = 0, created = 0, lastPunctured = 0\<rparr>"
  let ?keys0 = "[''bob'' \<mapsto> ?m]"
  let ?m1 = "?m\<lparr>currentSequence := currentSequence ?m + 1\<rparr>"
  let ?keys1 = "?keys0(''bob'' \<mapsto> ?m1)"
  have k: "?keys0 ''bob'' = Some ?m" by simp
  from tashfir_Some [where keys = ?keys0 and peerId = "''bob''" and P = ref_platform
      and M = "''hello''", OF k]
  obtain bytes where t: "tashfir ref_platform ?keys0 ''bob'' ''hello''
        = (Inr (Some (toBase64 ref_platform bytes, 0)), ?keys1)"
    and g: "getUint32 bytes 0 = Inr 0"
    by auto
  have k1: "?keys1 ''bob'' = Some ?m1" by simp
  have fr: "0 \<notin> set (puncturedSequences ?m1)" by simp
  note f = fakk_fresh [where keys = ?keys1 and peerId = "''bob''" and now = 1, OF k1 seq_AP8 fr]
  have p: "punctured_in (snd (fakk ref_platform ?keys1 1 ''bob'' ''AAAAAP8='')) ''bob'' 0"
    unfolding f by (simp add: punctured_in_def thaqb_punctured)
  have q: "getUint32 (fromBase64 ref_platform (toBase64 ref_platform bytes)) 0 = Inr 0"
    using g by (simp add: ref_platform_simps b64_roundtrip)
  note r = punctured_in_replay [OF p q, of 2]
  show ?thesis
    unfolding Let_def t using f p r by simp
qed

text \<open>
  Claim C2, amended. For every peer with a record, a call of \<open>fakk\<close> on any input of at
  least 4 bytes that carries a sequence \<open>S\<close> not yet punctured, forged or not, returns the
  text of the bytes after the sequence combined by exclusive-or with the sequence key, and
  punctures \<open>S\<close>: every later input that carries \<open>S\<close>, the legitimate one included, is
  rejected as a replay. No call of \<open>fakk\<close> ever takes the failure branch of its
  \<open>try\<close> block, so puncturing happens on every call that passes the replay check.
\<close>

theorem no_authentication:
  assumes "keys peerId = Some m"
    and "getUint32 (fromBase64 P s) 0 = Inr S"
    and "S \<notin> set (puncturedSequences m)"
  shows "fakk P keys now peerId s =
           (Inr (Plaintext (textDecode P (xorWithKey (deriveSequenceKey P (masterSecret m) S)
                                            (drop 4 (fromBase64 P s))))),
            keys(peerId \<mapsto> thaqb m now S))
         \<and> punctured_in (snd (fakk P keys now peerId s)) peerId S
         \<and> (\<forall>now' s'. getUint32 (fromBase64 P s') 0 = Inr S \<longrightarrow>
                fst (fakk P (snd (fakk P keys now peerId s)) now' peerId s') = Inr ReplayDetected)
         \<and> (\<forall>keys' now' peerId' s'. fst (fakk P keys' now' peerId' s') \<noteq> Inr DecryptionFailed)"
proof -
  note f = fakk_fresh [where keys=keys and peerId=peerId and now=now, OF assms]
  have p: "punctured_in (snd (fakk P keys now peerId s)) peerId S"
    unfolding f by (simp add: punctured_in_def thaqb_punctured)
  show ?thesis
    using f p by (simp add: punctured_in_replay fakk_never_DecryptionFailed)
qed

theorem no_authentication_witness:
  "(let keys0 = [''bob'' \<mapsto> \<lparr>m_peerId = ''bob'', masterSecret = [1, 2, 3],
                    puncturedSequences = [], currentSequence = 0, created = 0,
                    lastPunctured = 0\<rparr>];
        forged = fakk ref_platform keys0 1 ''bob'' ''AAAAAP8=''
    in (\<exists>text. fst forged = Inr (Plaintext text))
       \<and> punctured_in (snd forged) ''bob'' 0
       \<and> fst (fakk ref_platform (snd forged) 2 ''bob'' ''AAAAAAA='') = Inr ReplayDetected)"
proof -
  let ?m = "\<lparr>m_peerId = ''bob'', masterSecret = [1, 2, 3], puncturedSequences = [],
             currentSequence = 0, created = 0, lastPunctured = 0\<rparr>"
  let ?keys0 = "[''bob'' \<mapsto> ?m]"
  have k: "?keys0 ''bob'' = Some ?m" by simp
  have fr: "0 \<notin> set (puncturedSequences ?m)" by simp
  note t = no_authentication [where keys = ?keys0 and peerId = "''bob''" and now = 1,
      OF k seq_AP8 fr]
  from t have a: "\<exists>text. fst (fakk ref_platform ?keys0 1 ''bob'' ''AAAAAP8='') = Inr (Plaintext text)"
    by simp
  from t have b: "punctured_in (snd (fakk ref_platform ?keys0 1 ''bob'' ''AAAAAP8='')) ''bob'' 0"
    by blast
  from t have "\<forall>now' s'. getUint32 (fromBase64 ref_platform s') 0 = Inr 0 \<longrightarrow>
      fst (fakk ref_platform (snd (fakk ref_platform ?keys0 1 ''bob'' ''AAAAAP8='')) now' ''bob'' s')
        = Inr ReplayDetected"
    by blast
  with seq_AAA have c: "fst (fakk ref_platform (snd (fakk ref_platform ?keys0 1 ''bob'' ''AAAAAP8='')) 2
      ''bob'' ''AAAAAAA='') = Inr ReplayDetected"
    by blast
  from a b c show ?thesis unfolding Let_def by blast
qed

text \<open>
  Claim C3 as stated (``for every record and every plaintext, \<open>fakk\<close> of \<open>tashfir\<close> gives
  the plaintext back when the allocated sequence was not punctured before'') fails when
  the counter has left the 4 bytes that carry it. A record is opened for \<open>bob\<close>, its first
  message (sequence 0) is encrypted and decrypted, which punctures sequence 0, and
  \<open>2^32 - 1\<close> further messages are encrypted. The next call of \<open>tashfir\<close> allocates the
  sequence \<open>2^32\<close>, which is not punctured, and writes the sequence bytes \<open>00 00 00 00\<close>;
  \<open>fakk\<close> rejects this ciphertext as a replay of sequence 0 and returns \<open>null\<close>. (With no
  sequence punctured, \<open>fakk\<close> would decrypt with the key of sequence 0 instead of the
  key of sequence \<open>2^32\<close> that \<open>tashfir\<close> used.)
\<close>

theorem sequence_wrap_counterexample:
  "(let keys0 = snd (fataha ref_platform Map.empty 0 ''bob'' [1, 2, 3] [4, 5, 6]);
        first = tashfir ref_platform keys0 ''bob'' ''hi'';
        keys1 = snd (fakk ref_platform (snd first) 1 ''bob''
                  (case fst first of Inr (Some (encrypted, sq)) \<Rightarrow> encrypted | _ \<Rightarrow> []));
        keys2 = run_calls ref_platform keys1 (replicate 4294967295 (Tashfir ''bob'' ''x''));
        sent = tashfir ref_platform keys2 ''bob'' ''hello'';
        received = fakk ref_platform (snd sent) 2 ''bob''
                     (case fst sent of Inr (Some (encrypted, sq)) \<Rightarrow> encrypted | _ \<Rightarrow> [])
    in (case fst sent of Inr (Some (encrypted, sq)) \<Rightarrow> sq = 4294967296 | _ \<Rightarrow> False)
       \<and> map_option puncturedSequences (keys2 ''bob'') = Some [0]
       \<and> \<not> Set_has [0] (4294967296 :: int)
       \<and> fst received = Inr ReplayDetected
       \<and> fakk_value ReplayDetected = None)"
proof -
  let ?P = ref_platform
  let ?m0 = "\<lparr>m_peerId = ''bob'', masterSecret = sha512 ?P ([1, 2, 3] @ [4, 5, 6]),
              puncturedSequences = [], currentSequence = 0, created = 0, lastPunctured = 0\<rparr>"
  let ?keys0 = "[''bob'' \<mapsto> ?m0]"
  have f0: "snd (fataha ?P Map.empty 0 ''bob'' [1, 2, 3] [4, 5, 6]) = ?keys0"
    by (simp add: fataha_def Let_def)
  let ?mA = "?m0\<lparr>currentSequence := currentSequence ?m0 + 1\<rparr>"
  let ?keysA = "?keys0(''bob'' \<mapsto> ?mA)"
  have k0: "?keys0 ''bob'' = Some ?m0" by simp
  from tashfir_Some [where keys = ?keys0 and peerId = "''bob''" and P = ?P and M = "''hi''", OF k0]
  obtain b0 where t0: "tashfir ?P ?keys0 ''bob'' ''hi'' = (Inr (Some (toBase64 ?P b0, 0)), ?keysA)"
    and g0: "getUint32 b0 0 = Inr 0"
    by auto
  have q0: "getUint32 (fromBase64 ?P (toBase64 ?P b0)) 0 = Inr 0"
    using g0 by (simp add: ref_platform_simps b64_roundtrip)
  have kA: "?keysA ''bob'' = Some ?mA" by simp
  have frA: "0 \<notin> set (puncturedSequences ?mA)" by simp
  let ?mB = "thaqb ?mA 1 0"
  let ?keys1 = "?keysA(''bob'' \<mapsto> ?mB)"
  have f1: "snd (fakk ?P ?keysA 1 ''bob'' (toBase64 ?P b0)) = ?keys1"
    unfolding fakk_fresh [where keys = ?keysA and peerId = "''bob''" and now = 1, OF kA q0 frA]
    by simp
  have k1: "?keys1 ''bob'' = Some ?mB" by simp
  let ?mC = "?mB\<lparr>currentSequence := currentSequence ?mB + int 4294967295\<rparr>"
  let ?keys2 = "?keys1(''bob'' \<mapsto> ?mC)"
  have f2: "run_calls ?P ?keys1 (replicate 4294967295 (Tashfir ''bob'' ''x'')) = ?keys2"
    by (rule run_calls_tashfir [where keys = ?keys1 and p = "''bob''" and m = ?mB, OF k1])
  have k2: "?keys2 ''bob'' = Some ?mC" by simp
  have cC: "currentSequence ?mC = 4294967296" by (simp add: thaqb_def)
  have pC: "puncturedSequences ?mC = [0]" by (simp add: thaqb_def Set_add_def)
  let ?mD = "?mC\<lparr>currentSequence := currentSequence ?mC + 1\<rparr>"
  let ?keys3 = "?keys2(''bob'' \<mapsto> ?mD)"
  from tashfir_Some [where keys = ?keys2 and peerId = "''bob''" and P = ?P and M = "''hello''", OF k2]
  obtain b2 where t2: "tashfir ?P ?keys2 ''bob'' ''hello''
      = (Inr (Some (toBase64 ?P b2, currentSequence ?mC)), ?keys3)"
    and g2: "getUint32 b2 0 = Inr (currentSequence ?mC mod 4294967296)"
    by blast
  have g2': "getUint32 b2 0 = Inr 0" using g2 unfolding cC by simp
  have q2: "getUint32 (fromBase64 ?P (toBase64 ?P b2)) 0 = Inr 0"
    using g2' by (simp add: ref_platform_simps b64_roundtrip)
  have p3: "punctured_in ?keys3 ''bob'' 0" using pC by (simp add: punctured_in_def)
  note r = punctured_in_replay [OF p3 q2, of 2]
  show ?thesis
    unfolding Let_def f0 t0 using f1 f2 t2 cC pC r
    by (simp add: Set_has_def)
qed

text \<open>
  Claim C3, amended (round trip). For every peer with a record whose next sequence is in
  \<open>0..2^32-1\<close> and not punctured, and every plaintext \<open>M\<close> that the platform's text decoder
  gives back from its encoding (any well-formed text that does not start with a byte
  order mark), on a platform whose base64 decoder inverts its encoder, \<open>tashfir\<close> returns
  a ciphertext with that sequence, and \<open>fakk\<close> on this ciphertext returns exactly \<open>M\<close>.
\<close>

theorem tashfir_fakk_roundtrip:
  assumes "keys peerId = Some m"
    and "0 \<le> currentSequence m" "currentSequence m < 4294967296"
    and "currentSequence m \<notin> set (puncturedSequences m)"
    and "textDecode P (textEncode P M) = M"
    and "\<forall>bs. fromBase64 P (toBase64 P bs) = bs"
  shows "\<exists>encrypted keys1 keys2.
           tashfir P keys peerId M = (Inr (Some (encrypted, currentSequence m)), keys1)
           \<and> fakk P keys1 now peerId encrypted = (Inr (Plaintext M), keys2)
           \<and> fakk_value (Plaintext M) = Some M"
proof -
  let ?sq = "currentSequence m"
  let ?m1 = "m\<lparr>currentSequence := ?sq + 1\<rparr>"
  let ?keys1 = "keys(peerId \<mapsto> ?m1)"
  have md: "?sq mod 4294967296 = ?sq" using assms(2,3) by simp
  from tashfir_Some [where keys=keys and peerId=peerId and P=P and M=M, OF assms(1)]
  obtain bytes where t: "tashfir P keys peerId M = (Inr (Some (toBase64 P bytes, ?sq)), ?keys1)"
    and g: "getUint32 bytes 0 = Inr ?sq"
    and d: "drop 4 bytes = xorWithKey (deriveSequenceKey P (masterSecret m) ?sq) (textEncode P M)"
    unfolding md by blast
  have k1: "?keys1 peerId = Some ?m1" by simp
  have q: "getUint32 (fromBase64 P (toBase64 P bytes)) 0 = Inr ?sq"
    using g assms(6) by simp
  have fr: "?sq \<notin> set (puncturedSequences ?m1)" using assms(4) by simp
  have "fakk P ?keys1 now peerId (toBase64 P bytes)
        = (Inr (Plaintext M), ?keys1(peerId \<mapsto> thaqb ?m1 now ?sq))"
    unfolding fakk_fresh [where keys="?keys1" and peerId=peerId and now=now, OF k1 q fr]
    using assms(5,6) d by (simp add: xorWithKey_involution)
  with t show ?thesis by auto
qed

theorem tashfir_fakk_roundtrip_witness:
  "(let keys0 = [''bob'' \<mapsto> \<lparr>m_peerId = ''bob'', masterSecret = [1, 2, 3],
                    puncturedSequences = [], currentSequence = 0, created = 0,
                    lastPunctured = 0\<rparr>]
    in \<exists>encrypted keys1 keys2.
         tashfir ref_platform keys0 ''bob'' ''hello'' = (Inr (Some (encrypted, 0)), keys1)
         \<and> fakk ref_platform keys1 7 ''bob'' encrypted = (Inr (Plaintext ''hello''), keys2))"
proof -
  let ?m = "\<lparr>m_peerId = ''bob'', masterSecret = [1, 2, 3], puncturedSequences = [],
             currentSequence = 0, created = 0, lastPunctured = 0\<rparr>"
  let ?keys0 = "[''bob'' \<mapsto> ?m]"
  have k: "?keys0 ''bob'' = Some ?m" by simp
  have r: "0 \<le> currentSequence ?m" "currentSequence ?m < 4294967296"
    "currentSequence ?m \<notin> set (puncturedSequences ?m)" by simp_all
  have tx: "textDecode ref_platform (textEncode ref_platform ''hello'') = ''hello''"
    by (simp only: ref_platform_simps bytes_text_bytes)
  have b64: "\<forall>bs. fromBase64 ref_platform (toBase64 ref_platform bs) = bs"
    by (simp add: ref_platform_simps b64_roundtrip)
  from tashfir_fakk_roundtrip [where keys = ?keys0 and peerId = "''bob''" and now = 7,
      OF k r tx b64]
  show ?thesis unfolding Let_def by simp
qed

section \<open>Claims about the envelope\<close>

text \<open>
  Claim C8 (manifest visibility). For every envelope that \<open>satr\<close> builds, on a platform
  whose \<open>JSON.parse\<close> and text decoder give back the manifest from its serialised text,
  \<open>serializeTabaq\<close> succeeds and \<open>extractZahir\<close> on its bytes returns the manifest, whose
  properties \<open>senderId\<close>, \<open>recipientId\<close> and \<open>daraja\<close> are the identity's \<open>fullId\<close>, the
  recipient and the priority given to \<open>satr\<close>. The result is the same whatever bytes follow the manifest in
  place of the encrypted envelope. \<open>extractZahir\<close> takes the bytes only: it has no access
  to the key table, so it needs no session for the peer.
\<close>

theorem extractZahir_sealed:
  assumes "satr P keys now identity recipient b priority = (Inr (Some tabaq), keys1)"
    and "jsonParse P (textDecode P (textEncode P (jsonStringify P (zahir_json (zahir tabaq)))))
           = Inr (zahir_json (zahir tabaq))"
    and "length (textEncode P (jsonStringify P (zahir_json (zahir tabaq)))) < 4294967296"
  shows "\<exists>bytes. serializeTabaq P tabaq = Inr bytes
           \<and> extractZahir P bytes = Some (zahir_json (zahir tabaq))
           \<and> senderId (zahir tabaq) = fullId identity
           \<and> recipientId (zahir tabaq) = recipient
           \<and> daraja (zahir tabaq) = priority
           \<and> json_get (zahir_json (zahir tabaq)) ''senderId'' = Some (JString (fullId identity))
           \<and> json_get (zahir_json (zahir tabaq)) ''recipientId'' = Some (JString recipient)
           \<and> json_get (zahir_json (zahir tabaq)) ''daraja''
               = Some (JNumber (daraja_code priority))
           \<and> (\<forall>other. extractZahir P
                  (take (4 + length (textEncode P (jsonStringify P (zahir_json (zahir tabaq)))))
                     bytes @ other)
                 = Some (zahir_json (zahir tabaq)))"
proof -
  let ?zb = "textEncode P (jsonStringify P (zahir_json (zahir tabaq)))"
  let ?gb = "textEncode P (jsonStringify P (ghilaf_json P (ghilaf tabaq)))"
  from serializeTabaq_eq [OF assms(3)]
  obtain pre where p: "length pre = 4"
    and s: "serializeTabaq P tabaq = Inr (pre @ ?zb @ ?gb)"
    and g: "\<And>rest. getUint32 (pre @ rest) 0 = Inr (int (length ?zb))"
    by blast
  have nn: "zahir_json (zahir tabaq) \<noteq> JNull" by (simp add: zahir_json_def)
  have e: "extractZahir P (pre @ ?zb @ tail) = Some (zahir_json (zahir tabaq))" for tail
    using p g [of "?zb @ tail"] assms(2) nn
    by (simp add: extractZahir_def slice_def Let_def)
  have t: "take (4 + length ?zb) (pre @ ?zb @ ?gb) = pre @ ?zb"
    using p by simp
  show ?thesis
    apply (rule exI [of _ "pre @ ?zb @ ?gb"])
    using s e [of ?gb] e satr_zahir [OF assms(1)]
    by (simp only: t append_assoc) (simp add: json_get_def zahir_json_def)
qed

theorem extractZahir_sealed_witness:
  "(let keys0 = [''bob@wyresup'' \<mapsto> \<lparr>m_peerId = ''bob@wyresup'', masterSecret = [1, 2, 3],
                    puncturedSequences = [], currentSequence = 0, created = 0,
                    lastPunctured = 0\<rparr>];
        alice = \<lparr>prefix = ''alice'', privateKey = [], publicKey = [], hash = ''00'',
                 fullId = ''alice@wyresup''\<rparr>;
        hidden = \<lparr>b_type = 1, content = [104, 105], metadata = JObject []\<rparr>
    in \<exists>tabaq keys1 bytes.
         satr ref_platform keys0 1700000000000 alice ''bob@wyresup'' hidden ISTI_JAL
           = (Inr (Some tabaq), keys1)
         \<and> serializeTabaq ref_platform tabaq = Inr bytes
         \<and> extractZahir ref_platform bytes
             = Some (JObject [(''version'', JNumber 1), (''senderId'', JString ''alice@wyresup''),
                              (''recipientId'', JString ''bob@wyresup''), (''daraja'', JNumber 1),
                              (''timestamp'', JNumber 1700000000000),
                              (''ghilafSize'', JNumber 60)]))"
proof -
  let ?m = "\<lparr>m_peerId = ''bob@wyresup'', masterSecret = [1, 2, 3], puncturedSequences = [],
             currentSequence = 0, created = 0, lastPunctured = 0\<rparr>"
  let ?keys0 = "[''bob@wyresup'' \<mapsto> ?m]"
  let ?alice = "\<lparr>prefix = ''alice'', privateKey = [], publicKey = [], hash = ''00'',
                 fullId = ''alice@wyresup''\<rparr>"
  let ?hidden = "\<lparr>b_type = 1, content = [104, 105], metadata = JObject []\<rparr>"
  let ?bj = "jsonStringify ref_platform (batin_json ref_platform ?hidden)"
  have bj: "length ?bj = 41"
    by (simp add: ref_platform_simps batin_json_def json_quote_def show_int_def show_nat.simps
        digit_char_def b64_char_def b64_alphabet_def)
  have k: "?keys0 ''bob@wyresup'' = Some ?m" by simp
  from tashfir_Some [where keys = ?keys0 and peerId = "''bob@wyresup''" and P = ref_platform
      and M = ?bj, OF k]
  obtain bytes keys1 where t: "tashfir ref_platform ?keys0 ''bob@wyresup'' ?bj
        = (Inr (Some (toBase64 ref_platform bytes, 0)), keys1)"
    and g: "getUint32 bytes 0 = Inr 0"
    and d: "drop 4 bytes = xorWithKey (deriveSequenceKey ref_platform (masterSecret ?m) 0)
                             (textEncode ref_platform ?bj)"
    by auto
  have "length (drop 4 bytes) = 41"
    unfolding d using bj by (simp add: length_xorWithKey ref_platform_simps text_bytes_def)
  with getUint32_length [OF g] have lb: "length bytes = 45" by simp
  have gs: "length (textEncode ref_platform (toBase64 ref_platform bytes)) = 60"
    using lb by (simp add: ref_platform_simps text_bytes_def length_b64_encode)
  let ?z = "\<lparr>z_version = 1, senderId = ''alice@wyresup'', recipientId = ''bob@wyresup'',
             daraja = ISTI_JAL, z_timestamp = 1700000000000, ghilafSize = 60\<rparr>"
  let ?g = "\<lparr>miftahSequence = 0, nonce = replicate 12 0,
             batin = textEncode ref_platform (toBase64 ref_platform bytes), mac = replicate 16 0\<rparr>"
  let ?tabaq = "\<lparr>zahir = ?z, ghilaf = ?g\<rparr>"
  have s: "satr ref_platform ?keys0 1700000000000 ?alice ''bob@wyresup'' ?hidden ISTI_JAL
           = (Inr (Some ?tabaq), keys1)"
    using t gs by (simp add: satr_def Let_def ZBAT_VERSION_def)
  have zt: "json_text (zahir_json ?z) =
      ''{'' @ json_quote ''version'' @ '':1,'' @ json_quote ''senderId'' @ '':''
      @ json_quote ''alice@wyresup'' @ '','' @ json_quote ''recipientId'' @ '':''
      @ json_quote ''bob@wyresup'' @ '','' @ json_quote ''daraja'' @ '':1,''
      @ json_quote ''timestamp'' @ '':1700000000000,'' @ json_quote ''ghilafSize'' @ '':60}''"
    by (simp add: zahir_json_def show_int_def show_nat.simps digit_char_def)
  have jr: "json_read (json_text (zahir_json ?z)) = Inr (zahir_json ?z)"
    unfolding zt by (simp add: json_read_def zahir_json_def json_quote_def)
  have h2: "jsonParse ref_platform (textDecode ref_platform (textEncode ref_platform
              (jsonStringify ref_platform (zahir_json (zahir ?tabaq)))))
            = Inr (zahir_json (zahir ?tabaq))"
    using jr by (simp add: ref_platform_simps bytes_text_bytes)
  have h3: "length (textEncode ref_platform (jsonStringify ref_platform (zahir_json (zahir ?tabaq))))
            < 4294967296"
    by (simp add: ref_platform_simps text_bytes_def zt json_quote_def)
  from extractZahir_sealed [OF s h2 h3]
  obtain out where "serializeTabaq ref_platform ?tabaq = Inr out"
    "extractZahir ref_platform out = Some (zahir_json (zahir ?tabaq))"
    by blast
  with s show ?thesis
    unfolding Let_def by (auto simp: zahir_json_def)
qed

section \<open>Claims about packet processing\<close>

text \<open>
  Claim C10 (trial decryption always takes the first connection). \<open>decryptPayload\<close> never
  returns \<open>null\<close>. So whenever the connection map is not empty and the input decodes to a
  header, \<open>processPacket\<close> returns a result that names the first connection in the map's
  iteration order, with the payload combined by exclusive-or with that connection's key,
  whoever sent the packet.
\<close>

theorem processPacket_first_connection:
  assumes "connections = (peerId, conn) # rest"
    and "decodeHeader data = Inr (Some header)"
  shows "(\<forall>secret sequence ciphertext. decryptPayload P secret sequence ciphertext \<noteq> None)
         \<and> (\<exists>decrypted.
               decryptPayload P (sharedSecret conn) (h_sequence header) (drop 16 data)
                 = Some decrypted
               \<and> fst (processPacket P connections nowRtt nowSeen data)
                   = Inr (Some (peerId, textDecode P decrypted)))"
proof -
  obtain decrypted where
    d: "decryptPayload P (sharedSecret conn) (h_sequence header) (drop 16 data) = Some decrypted"
    using decryptPayload_Some [of P "sharedSecret conn" "h_sequence header" "drop 16 data"]
    by auto
  have "fst (processPacket P connections nowRtt nowSeen data)
          = Inr (Some (peerId, textDecode P decrypted))"
    using assms d
    by (simp add: processPacket_def Let_def BARQ_HEADER_SIZE_def split: prod.splits)
  with d show ?thesis by (simp add: decryptPayload_Some)
qed

theorem processPacket_first_connection_witness:
  "(let conns1 = snd (createConnection ref_platform [] 0 [9] ''alice'' [1]);
        conns2 = snd (createConnection ref_platform conns1 0 [9] ''bob'' [2]);
        data = [0x42, 0x51, 1, 1, 0, 0, 0, 5, 0, 0, 0, 0, 0, 2, 0, 0, 7, 8]
    in map fst conns2 = [''alice'', ''bob'']
       \<and> (\<exists>text. fst (processPacket ref_platform conns2 100 100 data)
                   = Inr (Some (''alice'', text))))"
proof -
  let ?a = "\<lparr>c_peerId = ''alice'', peerPublicKey = [1],
              sharedSecret = deriveSecret ref_platform [9] [1],
              sendSequence = 0, recvSequence = 0, c_rtt = 100, lastSeen = 0,
              pendingAcks = [], c_created = 0\<rparr>"
  let ?b = "\<lparr>c_peerId = ''bob'', peerPublicKey = [2],
              sharedSecret = deriveSecret ref_platform [9] [2],
              sendSequence = 0, recvSequence = 0, c_rtt = 100, lastSeen = 0,
              pendingAcks = [], c_created = 0\<rparr>"
  let ?data = "[0x42, 0x51, 1, 1, 0, 0, 0, 5, 0, 0, 0, 0, 0, 2, 0, 0, 7, 8] :: byte list"
  let ?h = "\<lparr>h_version = 1, h_type = 1, h_sequence = 5, h_timestamp = 0,
              h_length = 2, h_flags = 0\<rparr>"
  have c: "snd (createConnection ref_platform
                  (snd (createConnection ref_platform [] 0 [9] ''alice'' [1])) 0 [9] ''bob'' [2])
           = (''alice'', ?a) # [(''bob'', ?b)]"
    by (simp add: createConnection_def Let_def)
  have d: "decodeHeader ?data = Inr (Some ?h)"
    unfolding decodeHeader_eq by simp
  from processPacket_first_connection [OF c d, of ref_platform 100 100]
  show ?thesis unfolding Let_def c by auto
qed

end
